theory Spec2Isabelle
  imports Complex_Main "HOL-Library.Word"
begin

section \<open>Conventions of the embedding\<close>

text \<open>
  The program is C++. In the metrics, in the unsharp mask, in the sharpen filter and in
  the Gaussian blur its \<^verbatim>\<open>double\<close> values are embedded as real numbers: every
  floating-point operation is taken to be exact there. The places where the source
  leaves the finite doubles are written out as branches: the explicit \<^verbatim>\<open>+infinity\<close>
  of \<^verbatim>\<open>calculatePSNR\<close> is a constructor of its result type; a denominator
  \<^verbatim>\<open>2.0 * sigma * sigma\<close> that is the double 0.0 makes a weight a NaN, and the
  conversion of a NaN to \<^verbatim>\<open>unsigned char\<close> (undefined in C++) is an error value.
  In the bilateral filter, whose samples are truncated quotients of rounded sums, the
  double arithmetic is a parameter instead (\<open>arith\<close> below). A \<^verbatim>\<open>double\<close> argument
  of a function is a finite double.

  \<^verbatim>\<open>int\<close> is 32 bits wide. Signed overflow is undefined behaviour in C++; an
  \<^verbatim>\<open>int\<close> expression of the source whose mathematical value leaves the 32-bit range
  is an error value of the model. \<^verbatim>\<open>unsigned char\<close> is an 8-bit word.
\<close>

datatype error =
    SignedOverflow    \<comment> \<open>an \<^verbatim>\<open>int\<close> expression left the 32-bit range\<close>
  | FloatToIntUB      \<comment> \<open>a NaN was converted to \<^verbatim>\<open>unsigned char\<close>\<close>
  | LengthError       \<comment> \<open>\<^verbatim>\<open>std::vector\<close> constructed with a negative length\<close>
  | OutOfBounds       \<comment> \<open>an element access outside the buffer\<close>
  | CvAssertion       \<comment> \<open>an exception raised by an OpenCV operation\<close>
  | NotModelled       \<comment> \<open>an input the embedding does not cover\<close>

definition fits_int :: "int \<Rightarrow> bool" where
  "fits_int v \<longleftrightarrow> - (2 ^ 31) \<le> v \<and> v < 2 ^ 31"

text \<open>\<^verbatim>\<open>kernelSize / 2\<close> on \<^verbatim>\<open>int\<close>: C++ division truncates towards zero.\<close>

definition half :: "int \<Rightarrow> int" where
  "half k = (if 0 \<le> k then k div 2 else - ((- k) div 2))"

text \<open>
  \<^verbatim>\<open>static_cast<unsigned char>(d)\<close> for a double \<open>d\<close>: the fractional part is
  discarded. Every call site of the sources passes a value of the interval from 0 to 255
  (a clamped value or a normalised average), where the truncated value is representable.
\<close>

definition trunc :: "real \<Rightarrow> int" where
  "trunc d = (if d < 0 then \<lceil>d\<rceil> else \<lfloor>d\<rfloor>)"

definition to_uchar :: "real \<Rightarrow> 8 word" where
  "to_uchar d = word_of_int (trunc d)"

text \<open>An \<^verbatim>\<open>unsigned char\<close> promoted to \<^verbatim>\<open>int\<close>, and converted to \<^verbatim>\<open>double\<close>.\<close>

definition of_uchar :: "8 word \<Rightarrow> real" where
  "of_uchar c = real_of_int (uint c)"

text \<open>A loop whose body may fail: the first failure ends it.\<close>

fun foldE :: "('s \<Rightarrow> 'a \<Rightarrow> error + 's) \<Rightarrow> 'a list \<Rightarrow> 's \<Rightarrow> error + 's" where
  "foldE f [] s = Inr s"
| "foldE f (a # as) s = (case f s a of Inl e \<Rightarrow> Inl e | Inr s' \<Rightarrow> foldE f as s')"

fun mapE :: "('a \<Rightarrow> error + 'b) \<Rightarrow> 'a list \<Rightarrow> error + 'b list" where
  "mapE f [] = Inr []"
| "mapE f (a # as) =
     (case f a of Inl e \<Rightarrow> Inl e
      | Inr v \<Rightarrow> (case mapE f as of Inl e \<Rightarrow> Inl e | Inr vs \<Rightarrow> Inr (v # vs)))"


section \<open>tester.cpp: the Image class\<close>

record RGB =
  r :: "8 word"
  g :: "8 word"
  b :: "8 word"

text \<open>
  \<^verbatim>\<open>Image(w, h)\<close> allocates \<open>w * h\<close> pixels, stored row by row, the product computed
  in \<^verbatim>\<open>int\<close>; \<^verbatim>\<open>at(x, y)\<close> is \<^verbatim>\<open>pixels[y * width + x]\<close>, unchecked, the index
  computed in \<^verbatim>\<open>int\<close>. An image as the constructor builds it (\<open>wf_Image\<close>) has a width
  and a height that are \<^verbatim>\<open>int\<close> values and are not negative, a product \<open>w * h\<close> that
  fits an \<^verbatim>\<open>int\<close>, and a pixel vector of that length. Every access of the filters
  below is made at a coordinate clamped into the image, inside loops that run only when
  the image has a pixel: on such an image the index fits an \<^verbatim>\<open>int\<close> and the access
  is in range.
\<close>

record Image =
  width :: int
  height :: int
  pixels :: "RGB list"

definition wf_Image :: "Image \<Rightarrow> bool" where
  "wf_Image img \<longleftrightarrow>
     0 \<le> width img \<and> fits_int (width img) \<and> 0 \<le> height img \<and> fits_int (height img)
     \<and> fits_int (width img * height img)
     \<and> int (length (pixels img)) = width img * height img"

definition at_xy :: "Image \<Rightarrow> int \<Rightarrow> int \<Rightarrow> RGB" where
  "at_xy img x y = pixels img ! nat (y * width img + x)"

text \<open>
  The two outer loops of every filter write \<^verbatim>\<open>output.at(x, y)\<close> once for each
  \<open>y\<close> from 0 to \<open>height - 1\<close> and, inside, each \<open>x\<close> from 0 to \<open>width - 1\<close>: the
  pixel vector of the output is the list of the computed pixels in that order.
\<close>

definition coords :: "Image \<Rightarrow> (int \<times> int) list" where
  "coords img = concat (map (\<lambda>y. map (\<lambda>x. (x, y)) [0 .. width img - 1]) [0 .. height img - 1])"

definition clampCoord :: "int \<Rightarrow> int \<Rightarrow> int" where
  "clampCoord n len = max 0 (min n (len - 1))"


section \<open>tester.cpp: the bilateral filter\<close>

text \<open>
  A sample of the bilateral filter is a quotient of two sums of doubles, truncated: the
  rounding of one operation can decide the sample. The double arithmetic of the filter is
  therefore a parameter of the embedding: the conversion of an \<^verbatim>\<open>int\<close> (and of the
  literals \<open>0.0\<close> and \<open>2.0\<close>) to \<^verbatim>\<open>double\<close>, the sum, the product and the quotient
  of two doubles, \<^verbatim>\<open>exp\<close>, and \<^verbatim>\<open>static_cast<unsigned char>\<close>, which is undefined
  for a NaN and for a value whose truncation is no \<^verbatim>\<open>unsigned char\<close>, and so may
  fail. Each operation is a function of its operands, as in a build that rounds every
  operation to a double. What is proved of the filter holds for every such arithmetic,
  the one of the IEEE doubles included.
\<close>

record 'f arith =
  fint :: "int \<Rightarrow> 'f"
  fadd :: "'f \<Rightarrow> 'f \<Rightarrow> 'f"
  fmul :: "'f \<Rightarrow> 'f \<Rightarrow> 'f"
  fdiv :: "'f \<Rightarrow> 'f \<Rightarrow> 'f"
  fexp :: "'f \<Rightarrow> 'f"
  fcast :: "'f \<Rightarrow> error + 8 word"

definition spatialWeight :: "'f arith \<Rightarrow> int \<Rightarrow> int \<Rightarrow> 'f \<Rightarrow> error + 'f" where
  "spatialWeight ar dx dy sigmaSpatial =
     (if fits_int (dx * dx) \<and> fits_int (dy * dy) \<and> fits_int (dx * dx + dy * dy)
      then Inr (fexp ar (fdiv ar (fint ar (- (dx * dx + dy * dy)))
                               (fmul ar (fmul ar (fint ar 2) sigmaSpatial) sigmaSpatial)))
      else Inl SignedOverflow)"

definition rangeWeight :: "'f arith \<Rightarrow> int \<Rightarrow> 'f \<Rightarrow> error + 'f" where
  "rangeWeight ar diff sigmaRange =
     (if fits_int (diff * diff)
      then Inr (fexp ar (fdiv ar (fint ar (- (diff * diff)))
                               (fmul ar (fmul ar (fint ar 2) sigmaRange) sigmaRange)))
      else Inl SignedOverflow)"

text \<open>The components are at most 255, so the sum of three squares fits an \<^verbatim>\<open>int\<close>.\<close>

definition colorDifference :: "RGB \<Rightarrow> RGB \<Rightarrow> int" where
  "colorDifference p1 p2 =
     (let dr = uint (r p1) - uint (r p2);
          dg = uint (g p1) - uint (g p2);
          db = uint (b p1) - uint (b p2)
      in dr * dr + dg * dg + db * db)"

text \<open>The offsets \<open>(ky, kx)\<close> of the neighbourhood, in the order of the two inner loops.\<close>

definition window :: "int \<Rightarrow> (int \<times> int) list" where
  "window offset = List.product [- offset .. offset] [- offset .. offset]"

text \<open>One iteration of the inner loop: the four running sums after the neighbour at \<open>(ky, kx)\<close>.\<close>

fun accumulate ::
  "'f arith \<Rightarrow> Image \<Rightarrow> 'f \<Rightarrow> 'f \<Rightarrow> int \<Rightarrow> int \<Rightarrow> 'f \<times> 'f \<times> 'f \<times> 'f \<Rightarrow> int \<times> int
    \<Rightarrow> error + 'f \<times> 'f \<times> 'f \<times> 'f" where
  "accumulate ar input sigmaSpatial sigmaRange x y (sumR, sumG, sumB, sumWeight) (ky, kx) =
       (if \<not> fits_int (x + kx) \<or> \<not> fits_int (y + ky) then Inl SignedOverflow
        else
          let centerPixel = at_xy input x y;
              nx = clampCoord (x + kx) (width input);
              ny = clampCoord (y + ky) (height input);
              neighborPixel = at_xy input nx ny
          in case spatialWeight ar kx ky sigmaSpatial of
               Inl e \<Rightarrow> Inl e
             | Inr spatialW \<Rightarrow>
                (case rangeWeight ar (colorDifference centerPixel neighborPixel) sigmaRange of
                   Inl e \<Rightarrow> Inl e
                 | Inr rangeW \<Rightarrow>
                    let weight = fmul ar spatialW rangeW
                    in Inr (fadd ar sumR (fmul ar (fint ar (uint (r neighborPixel))) weight),
                            fadd ar sumG (fmul ar (fint ar (uint (g neighborPixel))) weight),
                            fadd ar sumB (fmul ar (fint ar (uint (b neighborPixel))) weight),
                            fadd ar sumWeight weight)))"

text \<open>
  The body of the two outer loops: the four sums start at \<open>0.0\<close>, and the three quotients
  are converted to \<^verbatim>\<open>unsigned char\<close> in the order red, green, blue.
\<close>

fun bilateralPixel ::
  "'f arith \<Rightarrow> Image \<Rightarrow> int \<Rightarrow> 'f \<Rightarrow> 'f \<Rightarrow> int \<times> int \<Rightarrow> error + RGB" where
  "bilateralPixel ar input kernelSize sigmaSpatial sigmaRange (x, y) =
       (case foldE (accumulate ar input sigmaSpatial sigmaRange x y)
                   (window (half kernelSize)) (fint ar 0, fint ar 0, fint ar 0, fint ar 0) of
          Inl e \<Rightarrow> Inl e
        | Inr (sumR, sumG, sumB, sumWeight) \<Rightarrow>
           (case fcast ar (fdiv ar sumR sumWeight) of
              Inl e \<Rightarrow> Inl e
            | Inr outR \<Rightarrow>
               (case fcast ar (fdiv ar sumG sumWeight) of
                  Inl e \<Rightarrow> Inl e
                | Inr outG \<Rightarrow>
                   (case fcast ar (fdiv ar sumB sumWeight) of
                      Inl e \<Rightarrow> Inl e
                    | Inr outB \<Rightarrow> Inr \<lparr> r = outR, g = outG, b = outB \<rparr>))))"

definition applyBilateralFilter ::
  "'f arith \<Rightarrow> Image \<Rightarrow> int \<Rightarrow> 'f \<Rightarrow> 'f \<Rightarrow> error + Image" where
  "applyBilateralFilter ar input kernelSize sigmaSpatial sigmaRange =
     (case mapE (bilateralPixel ar input kernelSize sigmaSpatial sigmaRange) (coords input) of
        Inl e \<Rightarrow> Inl e
      | Inr ps \<Rightarrow> Inr \<lparr> width = width input, height = height input, pixels = ps \<rparr>)"

definition applyBilateralFilterFast ::
  "'f arith \<Rightarrow> Image \<Rightarrow> int \<Rightarrow> 'f \<Rightarrow> 'f \<Rightarrow> error + Image" where
  "applyBilateralFilterFast ar input kernelSize sigmaSpatial sigmaRange =
     (let fastKernelSize = min kernelSize 9
      in applyBilateralFilter ar input fastKernelSize sigmaSpatial sigmaRange)"


section \<open>The bilateral filter in the words of the specification\<close>

text \<open>
  Section 4.3 of the specification, for comparison with \<^verbatim>\<open>applyBilateralFilter\<close>:
  the neighbour \<open>q\<close> of the pixel \<open>p = (x, y)\<close> at the offset \<open>(ky, kx)\<close> is read at the
  clamped coordinate; its weight is
  \<open>w(p,q) = exp (- \<parallel>p - q\<parallel>\<^sup>2 / (2 \<sigma>\<^sub>s\<^sup>2)) * exp (- colorDist(p,q)\<^sup>2 / (2 \<sigma>\<^sub>r\<^sup>2))\<close>, where
  \<open>colorDist\<close> is the sum of the squared differences of the channels of the neighbour
  and of the centre pixel; the output pixel is \<open>\<Sum> w(p,q) q / \<Sum> w(p,q)\<close> in each channel,
  stored as an \<^verbatim>\<open>unsigned char\<close>. The squared distances are whole numbers, taken here
  as the mathematical integers; a sum \<open>\<Sum>\<close> of doubles is accumulated from \<open>0.0\<close> in the
  order of the neighbourhood.
\<close>

fun neighbour :: "Image \<Rightarrow> int \<Rightarrow> int \<Rightarrow> int \<times> int \<Rightarrow> RGB" where
  "neighbour input x y (ky, kx) =
     at_xy input (clampCoord (x + kx) (width input)) (clampCoord (y + ky) (height input))"

definition colorDist :: "RGB \<Rightarrow> RGB \<Rightarrow> int" where
  "colorDist q p =
     (uint (r q) - uint (r p))\<^sup>2 + (uint (g q) - uint (g p))\<^sup>2 + (uint (b q) - uint (b p))\<^sup>2"

fun bilateralWeight :: "'f arith \<Rightarrow> Image \<Rightarrow> 'f \<Rightarrow> 'f \<Rightarrow> int \<Rightarrow> int \<Rightarrow> int \<times> int \<Rightarrow> 'f" where
  "bilateralWeight ar input sigmaSpatial sigmaRange x y (ky, kx) =
     fmul ar
       (fexp ar (fdiv ar (fint ar (- (kx\<^sup>2 + ky\<^sup>2)))
                        (fmul ar (fmul ar (fint ar 2) sigmaSpatial) sigmaSpatial)))
       (fexp ar (fdiv ar (fint ar (- (colorDist (neighbour input x y (ky, kx)) (at_xy input x y))\<^sup>2))
                        (fmul ar (fmul ar (fint ar 2) sigmaRange) sigmaRange)))"

definition fsum :: "'f arith \<Rightarrow> 'f list \<Rightarrow> 'f" where
  "fsum ar xs = foldl (fadd ar) (fint ar 0) xs"

definition weightedMean ::
  "'f arith \<Rightarrow> (int \<times> int \<Rightarrow> 'f) \<Rightarrow> (int \<times> int \<Rightarrow> 'f) \<Rightarrow> (int \<times> int) list \<Rightarrow> 'f" where
  "weightedMean ar w v ks =
     fdiv ar (fsum ar (map (\<lambda>k. fmul ar (v k) (w k)) ks)) (fsum ar (map w ks))"

fun specPixel ::
  "'f arith \<Rightarrow> Image \<Rightarrow> int \<Rightarrow> 'f \<Rightarrow> 'f \<Rightarrow> int \<times> int \<Rightarrow> error + RGB" where
  "specPixel ar input kernelSize sigmaSpatial sigmaRange (x, y) =
     (let ks = window (half kernelSize);
          w = bilateralWeight ar input sigmaSpatial sigmaRange x y;
          q = neighbour input x y
      in case fcast ar (weightedMean ar w (\<lambda>k. fint ar (uint (r (q k)))) ks) of
           Inl e \<Rightarrow> Inl e
         | Inr outR \<Rightarrow>
            (case fcast ar (weightedMean ar w (\<lambda>k. fint ar (uint (g (q k)))) ks) of
               Inl e \<Rightarrow> Inl e
             | Inr outG \<Rightarrow>
                (case fcast ar (weightedMean ar w (\<lambda>k. fint ar (uint (b (q k)))) ks) of
                   Inl e \<Rightarrow> Inl e
                 | Inr outB \<Rightarrow> Inr \<lparr> r = outR, g = outG, b = outB \<rparr>)))"

definition specBilateral ::
  "'f arith \<Rightarrow> Image \<Rightarrow> int \<Rightarrow> 'f \<Rightarrow> 'f \<Rightarrow> error + Image" where
  "specBilateral ar input kernelSize sigmaSpatial sigmaRange =
     (case mapE (specPixel ar input kernelSize sigmaSpatial sigmaRange) (coords input) of
        Inl e \<Rightarrow> Inl e
      | Inr ps \<Rightarrow> Inr \<lparr> width = width input, height = height input, pixels = ps \<rparr>)"

text \<open>
  The inputs on which no \<^verbatim>\<open>int\<close> expression of the filter overflows: for every pixel
  \<open>(x, y)\<close> and every offset \<open>(ky, kx)\<close> of its neighbourhood, the sums \<open>x + kx\<close> and
  \<open>y + ky\<close>, the squares of the two offsets and their sum, and the square of the colour
  distance between the pixel and that neighbour fit 32 bits.
\<close>

definition noOverflow :: "Image \<Rightarrow> int \<Rightarrow> bool" where
  "noOverflow input kernelSize \<longleftrightarrow>
     list_all (\<lambda>(x, y).
        list_all (\<lambda>(ky, kx).
            fits_int (x + kx) \<and> fits_int (y + ky)
            \<and> fits_int (kx * kx) \<and> fits_int (ky * ky) \<and> fits_int (kx * kx + ky * ky)
            \<and> fits_int (colorDist (neighbour input x y (ky, kx)) (at_xy input x y)
                        * colorDist (neighbour input x y (ky, kx)) (at_xy input x y)))
          (window (half kernelSize)))
       (coords input)"

text \<open>
  The arithmetic of the real numbers, exact and without a NaN: one arithmetic among those
  the statements about the filter range over, not the one of the doubles. It serves to
  apply those statements to concrete images.
\<close>

definition exactArith :: "real arith" where
  "exactArith =
     \<lparr> fint = real_of_int, fadd = (+), fmul = (*), fdiv = (/), fexp = exp,
       fcast = (\<lambda>d. Inr (to_uchar d)) \<rparr>"


section \<open>tester.cpp: the Gaussian blur on an Image\<close>

text \<open>
  The kernel vector: \<open>kernel1D[i] = exp(-(x * x) / (2.0 * sigma * sigma))\<close> with
  \<open>x = i - center\<close>, then every entry divided by the sum of all of them. The product
  \<open>x * x\<close> is an \<^verbatim>\<open>int\<close>.
\<close>

definition rawKernel1D :: "int \<Rightarrow> real \<Rightarrow> real list" where
  "rawKernel1D kernelSize sigma =
     map (\<lambda>i. let x = i - half kernelSize
              in exp (real_of_int (- (x * x)) / (2 * sigma * sigma)))
         [0 .. kernelSize - 1]"

definition kernel1D :: "int \<Rightarrow> real \<Rightarrow> real list" where
  "kernel1D kernelSize sigma =
     (let raw = rawKernel1D kernelSize sigma; sum = sum_list raw
      in map (\<lambda>w. w / sum) raw)"

definition kernelOverflows :: "int \<Rightarrow> bool" where
  "kernelOverflows kernelSize \<longleftrightarrow>
     (\<exists>i \<in> set [0 .. kernelSize - 1].
        \<not> fits_int ((i - half kernelSize) * (i - half kernelSize)))"

text \<open>
  One tap of a pass, along the row (\<open>horizontal = True\<close>) or along the column: the
  coordinate \<open>x + k - offset\<close> (or \<open>y + k - offset\<close>) is computed in \<^verbatim>\<open>int\<close>, left to
  right, then clamped; the pixel there is added to the three sums with the weight
  \<open>kernel1D[k]\<close>.
\<close>

fun passTerm ::
  "Image \<Rightarrow> real list \<Rightarrow> int \<Rightarrow> bool \<Rightarrow> int \<Rightarrow> int \<Rightarrow> real \<times> real \<times> real \<Rightarrow> int
     \<Rightarrow> error + real \<times> real \<times> real" where
  "passTerm img kern offset horizontal x y (sumR, sumG, sumB) k =
     (let c = (if horizontal then x else y) in
      if \<not> fits_int (c + k) \<or> \<not> fits_int (c + k - offset) then Inl SignedOverflow
      else
        let pixel = (if horizontal
                     then at_xy img (clampCoord (x + k - offset) (width img)) y
                     else at_xy img x (clampCoord (y + k - offset) (height img)));
            weight = kern ! nat k
        in Inr (sumR + of_uchar (r pixel) * weight,
                sumG + of_uchar (g pixel) * weight,
                sumB + of_uchar (b pixel) * weight))"

fun passPixel ::
  "Image \<Rightarrow> real list \<Rightarrow> int \<Rightarrow> int \<Rightarrow> bool \<Rightarrow> int \<times> int \<Rightarrow> error + RGB" where
  "passPixel img kern kernelSize offset horizontal (x, y) =
     (case foldE (passTerm img kern offset horizontal x y) [0 .. kernelSize - 1] (0, 0, 0) of
        Inl e \<Rightarrow> Inl e
      | Inr (sumR, sumG, sumB) \<Rightarrow>
          Inr \<lparr> r = to_uchar sumR, g = to_uchar sumG, b = to_uchar sumB \<rparr>)"

definition gaussPass :: "Image \<Rightarrow> real list \<Rightarrow> int \<Rightarrow> int \<Rightarrow> bool \<Rightarrow> error + Image" where
  "gaussPass img kern kernelSize offset horizontal =
     (case mapE (passPixel img kern kernelSize offset horizontal) (coords img) of
        Inl e \<Rightarrow> Inl e
      | Inr ps \<Rightarrow> Inr \<lparr> width = width img, height = height img, pixels = ps \<rparr>)"

text \<open>
  The denominator \<^verbatim>\<open>2.0 * sigma * sigma\<close> of the exponents is a double. It is the
  double \<open>0.0\<close> exactly when the product of the real numbers is at most \<open>2 powr -1075\<close>,
  half of the least positive double (the tie is rounded to the even neighbour, 0), that
  is for \<open>\<bar>sigma\<bar> \<le> 2 powr -538\<close>, about \<open>1.1e-162\<close>, and for \<open>sigma = 0\<close> in particular.
\<close>

definition denominatorVanishes :: "real \<Rightarrow> bool" where
  "denominatorVanishes sigma \<longleftrightarrow> 2 * sigma * sigma * 2 ^ 1075 \<le> 1"

text \<open>
  \<^verbatim>\<open>applyGaussianBlur\<close> of tester.cpp. It checks nothing. Its failures are those of
  the statements it executes, in their order: the kernel vector cannot be constructed
  with a negative length; \<open>x * x\<close> overflows for a kernel wider than 92681; with a
  denominator \<open>0.0\<close> the centre weight is \<^verbatim>\<open>exp(0 / 0.0)\<close>, a NaN, which reaches every
  weighted sum and is converted to \<^verbatim>\<open>unsigned char\<close> as soon as one pixel is
  computed; and \<open>x + k\<close> or \<open>y + k\<close> overflows in a pass over an image whose width or
  height plus the kernel size reaches \<open>2 ^ 31 + 2\<close>. With any other denominator the centre
  weight is 1, the weights are finite and normalised, and every weighted sum lies between
  0 and 255, up to rounding below 256.
\<close>

definition applyGaussianBlur :: "Image \<Rightarrow> int \<Rightarrow> real \<Rightarrow> error + Image" where
  "applyGaussianBlur input kernelSize sigma =
     (let offset = half kernelSize in
      if kernelSize < 0 then Inl LengthError
      else if kernelOverflows kernelSize then Inl SignedOverflow
      else if denominatorVanishes sigma \<and> 0 < kernelSize \<and> coords input \<noteq> []
        then Inl FloatToIntUB
      else
        let kern = kernel1D kernelSize sigma
        in case gaussPass input kern kernelSize offset True of
             Inl e \<Rightarrow> Inl e
           | Inr temp \<Rightarrow> gaussPass temp kern kernelSize offset False)"

text \<open>
  The inputs on which neither pass overflows: an image without pixels, a kernel without
  weights, or a width and a height with \<open>width + kernelSize - 2\<close> and
  \<open>height + kernelSize - 2\<close>, the largest values of \<open>x + k\<close> and \<open>y + k\<close>, below \<open>2 ^ 31\<close>.
\<close>

definition passesFit :: "Image \<Rightarrow> int \<Rightarrow> bool" where
  "passesFit input kernelSize \<longleftrightarrow>
     coords input = [] \<or> kernelSize \<le> 0
     \<or> (width input + kernelSize - 2 < 2 ^ 31 \<and> height input + kernelSize - 2 < 2 ^ 31)"


section \<open>tester.cpp: the sharpen filter\<close>

text \<open>
  The kernel of \<^verbatim>\<open>applySharpen\<close>: the array literal, then the assignment of the centre,
  then the double loop that assigns \<open>-amount\<close> to every entry other than the centre.
  The coordinates \<open>x + kx - 1\<close> and \<open>y + ky - 1\<close> of the convolution are taken on the
  mathematical integers, and the weighted sums on the real numbers: the coordinates fit
  an \<^verbatim>\<open>int\<close> for every image of a width and a height below \<open>2 ^ 31 - 1\<close>.
\<close>

definition setEntry :: "real list list \<Rightarrow> nat \<Rightarrow> nat \<Rightarrow> real \<Rightarrow> real list list" where
  "setEntry kern i j v = kern[i := (kern ! i)[j := v] ]"

definition sharpenKernel :: "real \<Rightarrow> real list list" where
  "sharpenKernel amount =
     (let kernel0 = [ [0, -1, 0], [-1, 5, -1], [0, -1, 0] ];
          kernel1 = setEntry kernel0 1 1 (1 + 4 * amount)
      in fold (\<lambda>(i, j) kern. if i \<noteq> 1 \<or> j \<noteq> 1 then setEntry kern i j (- amount) else kern)
              (List.product [0 ..< 3] [0 ..< 3]) kernel1)"

text \<open>
  The kernel in the words of the specification (4.4), for comparison: the centre weighs
  \<open>1 + 4 * amount\<close>, the four orthogonal neighbours \<open>-amount\<close>, the corners 0.
\<close>

definition claimedKernel :: "real \<Rightarrow> real list list" where
  "claimedKernel amount =
     [ [0, - amount, 0], [- amount, 1 + 4 * amount, - amount], [0, - amount, 0] ]"

fun sharpenTerm ::
  "Image \<Rightarrow> real list list \<Rightarrow> int \<Rightarrow> int \<Rightarrow> nat \<times> nat \<Rightarrow> real \<times> real \<times> real
     \<Rightarrow> real \<times> real \<times> real" where
  "sharpenTerm input kern x y (ky, kx) (sumR, sumG, sumB) =
     (let px = clampCoord (x + int kx - 1) (width input);
          py = clampCoord (y + int ky - 1) (height input);
          pixel = at_xy input px py
      in (sumR + of_uchar (r pixel) * kern ! ky ! kx,
          sumG + of_uchar (g pixel) * kern ! ky ! kx,
          sumB + of_uchar (b pixel) * kern ! ky ! kx))"

fun sharpenPixel :: "Image \<Rightarrow> real list list \<Rightarrow> int \<times> int \<Rightarrow> RGB" where
  "sharpenPixel input kern (x, y) =
     (case fold (sharpenTerm input kern x y) (List.product [0 ..< 3] [0 ..< 3]) (0, 0, 0) of
        (sumR, sumG, sumB) \<Rightarrow>
          \<lparr> r = to_uchar (min 255 (max 0 sumR)),
            g = to_uchar (min 255 (max 0 sumG)),
            b = to_uchar (min 255 (max 0 sumB)) \<rparr>)"

definition applySharpen :: "Image \<Rightarrow> real \<Rightarrow> Image" where
  "applySharpen input amount =
     \<lparr> width = width input, height = height input,
       pixels = map (sharpenPixel input (sharpenKernel amount)) (coords input) \<rparr>"


section \<open>The matrix type of the OpenCV sources\<close>

text \<open>
  Modelled from the spec: \<^verbatim>\<open>cv::Mat\<close> and the OpenCV operations that filters.cpp,
  psnr.cpp and ssim.cpp call belong to the library, not to the sources. A matrix is the
  PixelBuffer of the specification: a dense grid of \<open>rows \<times> cols\<close> pixels of
  \<open>channels\<close> samples each, stored row by row with the samples of a pixel next to each
  other, together with the sample type (\<open>depth\<close>). The samples are kept as real
  numbers whatever the depth, so \<^verbatim>\<open>convertTo\<close> to a floating-point depth keeps
  every value.
\<close>

datatype Depth = CV_8U | CV_8S | CV_16U | CV_16S | CV_32S | CV_32F | CV_64F

record Mat =
  rows :: nat
  cols :: nat
  channels :: nat
  depth :: Depth
  data :: "real list"

definition wf_Mat :: "Mat \<Rightarrow> bool" where
  "wf_Mat M \<longleftrightarrow> 0 < channels M \<and> length (data M) = rows M * cols M * channels M"

text \<open>The values an 8-bit sample can take: the whole numbers from 0 to 255.\<close>

definition is_uchar :: "real \<Rightarrow> bool" where
  "is_uchar v \<longleftrightarrow> 0 \<le> v \<and> v \<le> 255 \<and> v = real_of_int \<lfloor>v\<rfloor>"

text \<open>\<^verbatim>\<open>cv::Mat()\<close>, the matrix without elements that the filters return on a rejected input.\<close>

definition emptyMat :: Mat where
  "emptyMat = \<lparr> rows = 0, cols = 0, channels = 1, depth = CV_8U, data = [] \<rparr>"

definition mat_empty :: "Mat \<Rightarrow> bool" where
  "mat_empty M \<longleftrightarrow> data M = [] \<or> rows M * cols M = 0"

definition type_eq :: "Mat \<Rightarrow> Mat \<Rightarrow> bool" where
  "type_eq A B \<longleftrightarrow> depth A = depth B \<and> channels A = channels B"

definition convertTo :: "Mat \<Rightarrow> Depth \<Rightarrow> Mat" where
  "convertTo M d = M \<lparr> depth := d \<rparr>"

text \<open>Element-wise difference, sum, product and quotient of two matrices of one shape.\<close>

definition mat_sub :: "Mat \<Rightarrow> Mat \<Rightarrow> Mat" where
  "mat_sub A B = A \<lparr> data := map2 (-) (data A) (data B) \<rparr>"

definition mat_add :: "Mat \<Rightarrow> Mat \<Rightarrow> Mat" where
  "mat_add A B = A \<lparr> data := map2 (+) (data A) (data B) \<rparr>"

definition mat_mul :: "Mat \<Rightarrow> Mat \<Rightarrow> Mat" where
  "mat_mul A B = A \<lparr> data := map2 (*) (data A) (data B) \<rparr>"

definition mat_divide :: "Mat \<Rightarrow> Mat \<Rightarrow> Mat" where
  "mat_divide A B = A \<lparr> data := map2 (/) (data A) (data B) \<rparr>"

definition mat_scale :: "real \<Rightarrow> Mat \<Rightarrow> Mat" where
  "mat_scale k M = M \<lparr> data := map ((*) k) (data M) \<rparr>"

text \<open>
  A matrix plus a \<^verbatim>\<open>double\<close>: the number becomes the \<^verbatim>\<open>cv::Scalar\<close>
  \<open>(s, 0, 0, 0)\<close>, whose entry \<open>c\<close> is added to channel \<open>c\<close>. Only channel 0 changes.
\<close>

definition mat_add_scalar :: "Mat \<Rightarrow> real \<Rightarrow> Mat" where
  "mat_add_scalar M s =
     M \<lparr> data := map (\<lambda>i. if i mod channels M = 0 then data M ! i + s else data M ! i)
                      [0 ..< length (data M)] \<rparr>"

text \<open>The samples of channel \<open>c\<close>, one for each pixel.\<close>

definition channel :: "Mat \<Rightarrow> nat \<Rightarrow> real list" where
  "channel M c = map (\<lambda>p. data M ! (p * channels M + c)) [0 ..< rows M * cols M]"

text \<open>\<^verbatim>\<open>cv::sum\<close> and \<^verbatim>\<open>cv::mean\<close>: the sum and the mean of each channel.\<close>

definition cv_sum :: "Mat \<Rightarrow> real list" where
  "cv_sum M = map (\<lambda>c. sum_list (channel M c)) [0 ..< channels M]"

definition cv_mean :: "Mat \<Rightarrow> real list" where
  "cv_mean M = map (\<lambda>c. sum_list (channel M c) / real (rows M * cols M)) [0 ..< channels M]"

text \<open>
  Modelled from the spec: \<^verbatim>\<open>cv::GaussianBlur\<close> is the Gaussian Filter of the
  specification (4.1 and 4.2): the weight at the centred offset \<open>i\<close> is
  \<open>exp (- i\<^sup>2 / (2 \<sigma>\<^sup>2))\<close>, the weights are normalised to sum 1, and the kernel is
  applied along the rows and then along the columns, each channel on its own, a
  coordinate outside the grid being clamped to the nearest one inside. A floating-point
  matrix keeps the weighted sums as they are.
\<close>

definition gaussianKernel :: "nat \<Rightarrow> real \<Rightarrow> real list" where
  "gaussianKernel k sigma =
     (let raw = map (\<lambda>j. exp (- ((real j - real (k div 2)) ^ 2) / (2 * sigma ^ 2))) [0 ..< k]
      in map (\<lambda>w. w / sum_list raw) raw)"

definition clampIndex :: "int \<Rightarrow> nat \<Rightarrow> nat" where
  "clampIndex n len = nat (max 0 (min n (int len - 1)))"

definition idx :: "Mat \<Rightarrow> nat \<Rightarrow> nat \<Rightarrow> nat \<Rightarrow> nat" where
  "idx M y x c = (y * cols M + x) * channels M + c"

definition tap :: "Mat \<Rightarrow> nat \<Rightarrow> bool \<Rightarrow> nat \<Rightarrow> nat \<Rightarrow> nat" where
  "tap M k horizontal i j =
     (let c = i mod channels M; p = i div channels M; x = p mod cols M; y = p div cols M
      in if horizontal
         then idx M y (clampIndex (int x + int j - int (k div 2)) (cols M)) c
         else idx M (clampIndex (int y + int j - int (k div 2)) (rows M)) x c)"

text \<open>The weighted sum of the values \<open>f 0, f 1, \<dots>\<close> under the weights \<open>ws\<close>.\<close>

definition wsum :: "real list \<Rightarrow> (nat \<Rightarrow> real) \<Rightarrow> real" where
  "wsum ws f = sum_list (map (\<lambda>j. ws ! j * f j) [0 ..< length ws])"

definition blurPass :: "Mat \<Rightarrow> real list \<Rightarrow> bool \<Rightarrow> Mat" where
  "blurPass M ws horizontal =
     M \<lparr> data := map (\<lambda>i. wsum ws (\<lambda>j. data M ! tap M (length ws) horizontal i j))
                      [0 ..< length (data M)] \<rparr>"

text \<open>
  Modelled from the spec: \<^verbatim>\<open>cv::GaussianBlur(src, dst, Size(ksize, ksize), sigma)\<close>,
  the separable two-pass mode of the Convolution Engine: the horizontal pass, then the
  vertical pass over its result, both with the kernel of \<open>ksize\<close> weights.
\<close>

definition GaussianBlur :: "Mat \<Rightarrow> nat \<Rightarrow> real \<Rightarrow> Mat" where
  "GaussianBlur M ksize sigma =
     (let ws = gaussianKernel ksize sigma in blurPass (blurPass M ws True) ws False)"


section \<open>psnr.cpp\<close>

text \<open>
  The result of \<^verbatim>\<open>calculatePSNR\<close> is a \<^verbatim>\<open>double\<close> that is either finite (a value
  in decibels, or the sentinel \<open>-1\<close>) or \<^verbatim>\<open>std::numeric_limits<double>::infinity()\<close>.
\<close>

datatype dbl = Finite real | PlusInfinity

text \<open>
  \<^verbatim>\<open>cv::sum\<close> returns a \<^verbatim>\<open>cv::Scalar\<close> of four entries and raises an exception for
  a matrix of more than four channels.
\<close>

definition calculatePSNR :: "Mat \<Rightarrow> Mat \<Rightarrow> error + dbl" where
  "calculatePSNR original compressed =
     (if mat_empty original \<or> mat_empty compressed then Inr (Finite (- 1))
      else if rows original \<noteq> rows compressed \<or> cols original \<noteq> cols compressed
        then Inr (Finite (- 1))
      else if channels original \<noteq> channels compressed then Inr (Finite (- 1))
      else if 4 < channels original then Inl CvAssertion
      else
        let orig_float = convertTo original CV_64F;
            comp_float = convertTo compressed CV_64F;
            diff = mat_sub orig_float comp_float;
            diff2 = mat_mul diff diff;
            sum_squared_error = cv_sum diff2;
            sse = sum_list (map (\<lambda>i. sum_squared_error ! i) [0 ..< channels original]);
            total_pixels = real (rows original * cols original * channels original);
            mse = sse / total_pixels
        in if mse = 0 then Inr PlusInfinity
           else
             let max_pixel_value =
                   (if depth original = CV_8U then 255
                    else if depth original = CV_16U then 65535
                    else 1)
             in Inr (Finite (10 * log 10 ((max_pixel_value * max_pixel_value) / mse))))"

text \<open>The mean squared error that \<^verbatim>\<open>calculatePSNR\<close> computes on its way.\<close>

definition meanSquaredError :: "Mat \<Rightarrow> Mat \<Rightarrow> real" where
  "meanSquaredError original compressed =
     (let diff = mat_sub (convertTo original CV_64F) (convertTo compressed CV_64F);
          sum_squared_error = cv_sum (mat_mul diff diff);
          sse = sum_list (map (\<lambda>i. sum_squared_error ! i) [0 ..< channels original])
      in sse / real (rows original * cols original * channels original))"


section \<open>ssim.cpp\<close>

definition computeSSIM :: "Mat \<Rightarrow> Mat \<Rightarrow> error + real" where
  "computeSSIM imageA imageB =
     (if mat_empty imageA \<or> mat_empty imageB then Inr (- 1)
      else if rows imageA \<noteq> rows imageB \<or> cols imageA \<noteq> cols imageB then Inr (- 1)
      else if \<not> type_eq imageA imageB then Inr (- 1)
      else if 4 < channels imageA then Inl CvAssertion
      else
        let C1 = (0.01 * 255) * (0.01 * 255);
            C2 = (0.03 * 255) * (0.03 * 255);
            floatImageA = convertTo imageA CV_32F;
            floatImageB = convertTo imageB CV_32F;
            imageA_squared = mat_mul floatImageA floatImageA;
            imageB_squared = mat_mul floatImageB floatImageB;
            imageA_times_B = mat_mul floatImageA floatImageB;
            meanA = GaussianBlur floatImageA 11 1.5;
            meanB = GaussianBlur floatImageB 11 1.5;
            meanA_squared = mat_mul meanA meanA;
            meanB_squared = mat_mul meanB meanB;
            meanA_times_meanB = mat_mul meanA meanB;
            varianceA = mat_sub (GaussianBlur imageA_squared 11 1.5) meanA_squared;
            varianceB = mat_sub (GaussianBlur imageB_squared 11 1.5) meanB_squared;
            covariance = mat_sub (GaussianBlur imageA_times_B 11 1.5) meanA_times_meanB;
            luminance_numerator = mat_add_scalar (mat_scale 2 meanA_times_meanB) C1;
            structure_numerator = mat_add_scalar (mat_scale 2 covariance) C2;
            numerator = mat_mul luminance_numerator structure_numerator;
            luminance_denominator = mat_add_scalar (mat_add meanA_squared meanB_squared) C1;
            contrast_denominator = mat_add_scalar (mat_add varianceA varianceB) C2;
            denominator = mat_mul luminance_denominator contrast_denominator;
            ssimMap = mat_divide numerator denominator;
            meanSSIM = cv_mean ssimMap
        in Inr (meanSSIM ! 0))"


text \<open>
  The SSIM map that \<^verbatim>\<open>computeSSIM\<close> builds when its two arguments are one image:
  the chain of assignments above with \<open>floatImageB = floatImageA = F\<close>, so that
  \<open>meanB\<close> is \<open>meanA\<close> and both \<open>varianceB\<close> and \<open>covariance\<close> are \<open>varianceA\<close>.
\<close>

definition selfMap :: "Mat \<Rightarrow> Mat" where
  "selfMap F =
     (let C1 = (0.01 * 255) * (0.01 * 255);
          C2 = (0.03 * 255) * (0.03 * 255);
          mu = GaussianBlur F 11 1.5;
          mu2 = mat_mul mu mu;
          var = mat_sub (GaussianBlur (mat_mul F F) 11 1.5) mu2
      in mat_divide
           (mat_mul (mat_add_scalar (mat_scale 2 mu2) C1) (mat_add_scalar (mat_scale 2 var) C2))
           (mat_mul (mat_add_scalar (mat_add mu2 mu2) C1) (mat_add_scalar (mat_add var var) C2)))"


section \<open>filters.cpp\<close>

text \<open>
  \<^verbatim>\<open>applyGaussianBlur\<close> of filters.cpp makes an even kernel size odd and hands the
  work to \<^verbatim>\<open>cv::GaussianBlur\<close>, here the parameter \<open>blur\<close>. It has no check of its own.
\<close>

definition applyGaussianBlur_Mat ::
  "(Mat \<Rightarrow> int \<Rightarrow> real \<Rightarrow> 'a) \<Rightarrow> Mat \<Rightarrow> int \<Rightarrow> real \<Rightarrow> 'a" where
  "applyGaussianBlur_Mat blur input kernelSize sigma =
     (let kernelSize = (if even kernelSize then kernelSize + 1 else kernelSize)
      in blur input kernelSize sigma)"

text \<open>
  \<^verbatim>\<open>applyUnsharpMask\<close> reads and writes through \<^verbatim>\<open>at<cv::Vec3b>(y, x)[c]\<close>, which is
  the byte at offset \<open>y * step + 3 * x + c\<close> of the buffer, \<open>step\<close> being the number of
  bytes of a row. For a matrix of depth \<^verbatim>\<open>CV_8U\<close> a byte is a sample, and the offset
  is an index into the samples; the model follows the accessor there. A matrix of another
  depth, whose samples are wider than a byte, has no result in the model (\<open>NotModelled\<close>).
  An offset outside the buffer is \<open>OutOfBounds\<close>.
\<close>

definition offset_Vec3b :: "Mat \<Rightarrow> nat \<Rightarrow> nat \<Rightarrow> nat \<Rightarrow> nat" where
  "offset_Vec3b M y x c = y * (cols M * channels M) + 3 * x + c"

text \<open>The samples visited by the three nested loops, in their order.\<close>

definition samples :: "nat \<Rightarrow> nat \<Rightarrow> nat \<Rightarrow> (nat \<times> nat \<times> nat) list" where
  "samples nrows ncols nchannels =
     concat (map (\<lambda>y. concat (map (\<lambda>x. map (\<lambda>c. (y, x, c)) [0 ..< nchannels]) [0 ..< ncols]))
                 [0 ..< nrows])"

definition unsharpSample :: "real \<Rightarrow> real \<Rightarrow> real \<Rightarrow> real \<Rightarrow> real" where
  "unsharpSample orig_val blur_val amount threshold =
     (let detail0 = orig_val - blur_val;
          detail = (if \<bar>detail0\<bar> < threshold then 0 else detail0);
          sharpened0 = orig_val + amount * detail;
          sharpened = min 255 (max 0 sharpened0)
      in real_of_int (trunc sharpened))"

fun unsharpStep ::
  "Mat \<Rightarrow> Mat \<Rightarrow> real \<Rightarrow> real \<Rightarrow> real list \<Rightarrow> nat \<times> nat \<times> nat \<Rightarrow> error + real list" where
  "unsharpStep original blurred amount threshold out (y, x, c) =
     (let i = offset_Vec3b original y x c; j = offset_Vec3b blurred y x c
      in if i < length (data original) \<and> j < length (data blurred) \<and> i < length out
         then Inr (out[i := unsharpSample (data original ! i) (data blurred ! j) amount threshold])
         else Inl OutOfBounds)"

definition applyUnsharpMask :: "Mat \<Rightarrow> Mat \<Rightarrow> real \<Rightarrow> real \<Rightarrow> error + Mat" where
  "applyUnsharpMask original blurred amount threshold =
     (if mat_empty original \<or> mat_empty blurred then Inr emptyMat
      else if rows original \<noteq> rows blurred \<or> cols original \<noteq> cols blurred then Inr emptyMat
      else if channels original \<noteq> channels blurred then Inr emptyMat
      else if depth original \<noteq> CV_8U \<or> depth blurred \<noteq> CV_8U then Inl NotModelled
      else
        case foldE (unsharpStep original blurred amount threshold)
                   (samples (rows original) (cols original) (channels original))
                   (replicate (rows original * cols original * channels original) 0) of
          Inl e \<Rightarrow> Inl e
        | Inr out \<Rightarrow> Inr (original \<lparr> data := out \<rparr>))"

text \<open>
  \<^verbatim>\<open>calculateCompositeScore\<close>. Its first argument is what \<^verbatim>\<open>calculatePSNR\<close> returns,
  infinity included: \<open>infinity / 50.0\<close> is infinity, and \<open>std::min(infinity, 1.0)\<close> is 1.
\<close>

definition calculateCompositeScore :: "dbl \<Rightarrow> real \<Rightarrow> real" where
  "calculateCompositeScore psnr ssim =
     (if (case psnr of Finite p \<Rightarrow> p < 0 | PlusInfinity \<Rightarrow> False) \<or> ssim < 0 then - 1
      else
        let normalized_psnr = (case psnr of Finite p \<Rightarrow> min (p / 50) 1 | PlusInfinity \<Rightarrow> 1);
            composite = 0.5 * normalized_psnr + 0.5 * ssim
        in composite)"


section \<open>Concrete inputs\<close>

text \<open>A one-pixel grey image, and a black pixel beside a red one.\<close>

definition grey100 :: Image where
  "grey100 = \<lparr> width = 1, height = 1, pixels = [\<lparr> r = 100, g = 100, b = 100 \<rparr>] \<rparr>"

definition blackRed :: Image where
  "blackRed = \<lparr> width = 2, height = 1,
                pixels = [\<lparr> r = 0, g = 0, b = 0 \<rparr>, \<lparr> r = 255, g = 0, b = 0 \<rparr>] \<rparr>"

text \<open>Two pixels of one red level whose green and blue levels are far apart.\<close>

definition redCyan :: Image where
  "redCyan = \<lparr> width = 2, height = 1,
               pixels = [\<lparr> r = 100, g = 0, b = 0 \<rparr>, \<lparr> r = 100, g = 255, b = 255 \<rparr>] \<rparr>"

text \<open>A row of three grey pixels of nearby levels.\<close>

definition greyRow :: Image where
  "greyRow = \<lparr> width = 3, height = 1,
               pixels = [\<lparr> r = 10, g = 10, b = 10 \<rparr>, \<lparr> r = 20, g = 20, b = 20 \<rparr>,
                         \<lparr> r = 30, g = 30, b = 30 \<rparr>] \<rparr>"

text \<open>An 8-bit matrix with every sample equal to \<open>v\<close>.\<close>

definition uniformMat :: "nat \<Rightarrow> nat \<Rightarrow> nat \<Rightarrow> real \<Rightarrow> Mat" where
  "uniformMat nrows ncols nchannels v =
     \<lparr> rows = nrows, cols = ncols, channels = nchannels, depth = CV_8U,
       data = replicate (nrows * ncols * nchannels) v \<rparr>"

text \<open>A single-channel 8-bit matrix of one row and two columns.\<close>

definition grayRow :: Mat where
  "grayRow = \<lparr> rows = 1, cols = 2, channels = 1, depth = CV_8U, data = [10, 20] \<rparr>"


section \<open>Auxiliary facts\<close>

lemma sample_index_bound:
  assumes "p < n" and "c < (k::nat)"
  shows "p * k + c < n * k"
proof -
  have "p * k + c < p * k + k" using assms by simp
  also have "\<dots> = (p + 1) * k" by simp
  also have "\<dots> \<le> n * k" using assms by (intro mult_le_mono1) simp
  finally show ?thesis .
qed

lemma sum_list_zeros:
  fixes xs :: "real list"
  shows "\<forall>v \<in> set xs. v = 0 \<Longrightarrow> sum_list xs = 0"
  by (induction xs) simp_all

lemma log10_lower:
  fixes x :: real
  assumes "0 < x" and "(10::real) ^ p \<le> x ^ q" and "0 < q"
  shows "real p / real q \<le> log 10 x"
proof -
  have "log 10 ((10::real) ^ p) \<le> log 10 (x ^ q)"
    using assms by (subst log_le_cancel_iff) simp_all
  then have "real p \<le> real q * log 10 x"
    using assms by (simp add: log_nat_power)
  then show ?thesis
    using assms by (simp add: pos_divide_le_eq mult.commute)
qed

lemma log10_upper:
  fixes x :: real
  assumes "0 < x" and "x ^ q < (10::real) ^ p" and "0 < q"
  shows "log 10 x < real p / real q"
proof -
  have "log 10 (x ^ q) < log 10 ((10::real) ^ p)"
    using assms by (subst log_less_cancel_iff) simp_all
  then have "real q * log 10 x < real p"
    using assms by (simp add: log_nat_power)
  then show ?thesis
    using assms by (simp add: pos_less_divide_eq mult.commute)
qed


section \<open>The fast bilateral variant\<close>

text \<open>
  C8. The fast variant is the bilateral filter run with the kernel size \<open>min k 9\<close>: for
  every image, every spread and every requested size the two calls give the same result
  (the same image, or the same failure), whatever the double arithmetic; for a size of at
  most 9 the fast variant is the bilateral filter itself.
\<close>

theorem fast_is_capped_bilateral:
  "applyBilateralFilterFast ar input k sigmaSpatial sigmaRange
     = applyBilateralFilter ar input (min k 9) sigmaSpatial sigmaRange
   \<and> (k \<le> 9 \<longrightarrow> applyBilateralFilterFast ar input k sigmaSpatial sigmaRange
                 = applyBilateralFilter ar input k sigmaSpatial sigmaRange)"
  by (simp add: applyBilateralFilterFast_def min_def)

theorem fast_is_capped_bilateral_witness:
  "applyBilateralFilterFast exactArith grey100 15 3 30 = applyBilateralFilter exactArith grey100 9 3 30
   \<and> applyBilateralFilterFast exactArith grey100 5 3 30 = applyBilateralFilter exactArith grey100 5 3 30"
  using fast_is_capped_bilateral [of exactArith grey100 15 3 30]
    fast_is_capped_bilateral [of exactArith grey100 5 3 30]
  by simp


section \<open>The sharpen kernel\<close>

lemma sharpenKernel_entries:
  "sharpenKernel amount =
     [ [- amount, - amount, - amount],
       [- amount, 1 + 4 * amount, - amount],
       [- amount, - amount, - amount] ]"
  by (simp add: sharpenKernel_def setEntry_def upt_rec)

text \<open>
  C1. The kernel that \<^verbatim>\<open>applySharpen\<close> convolves with has the weight \<open>-amount\<close> on
  all eight neighbours, the four corners included, not 0 on the corners: the loop that
  scales the kernel overwrites every entry other than the centre. On the one-pixel image
  of value 100 with \<open>amount = 1\<close> every sample of the output is 0 (the weighted sum is
  \<open>100 * (5 - 8) = -300\<close>, clamped), where the same convolution with the kernel of the
  specification, corners 0, gives \<open>100 * (5 - 4) = 100\<close>.
\<close>

theorem sharpen_corner_weights:
  "sharpenKernel amount ! 0 ! 0 = - amount \<and> sharpenKernel amount ! 0 ! 2 = - amount
   \<and> sharpenKernel amount ! 2 ! 0 = - amount \<and> sharpenKernel amount ! 2 ! 2 = - amount
   \<and> sharpenKernel amount ! 1 ! 1 = 1 + 4 * amount
   \<and> applySharpen grey100 1
       = \<lparr> width = 1, height = 1, pixels = [\<lparr> r = 0, g = 0, b = 0 \<rparr>] \<rparr>
   \<and> map (sharpenPixel grey100 (claimedKernel 1)) (coords grey100)
       = [\<lparr> r = 100, g = 100, b = 100 \<rparr>]"
  by (simp add: applySharpen_def sharpenKernel_entries claimedKernel_def coords_def grey100_def
      upt_rec clampCoord_def at_xy_def of_uchar_def to_uchar_def trunc_def)

theorem sharpen_corner_weights_witness:
  "sharpenKernel 1 ! 0 ! 0 = - 1 \<and> sharpenKernel 1 ! 1 ! 1 = 5
   \<and> pixels (applySharpen grey100 1) = [\<lparr> r = 0, g = 0, b = 0 \<rparr>]"
  using sharpen_corner_weights [of 1] by simp


section \<open>The composite score\<close>

text \<open>
  C7. For a PSNR \<open>p \<ge> 0\<close> and an SSIM \<open>s \<ge> 0\<close> the composite score is
  \<open>0.5 * min (p / 50) 1 + 0.5 * s\<close> (for an infinite PSNR the first term is 0.5); when
  either input is negative the result is the sentinel \<open>-1\<close>; a PSNR of at least 50 with an
  SSIM of 1 gives exactly 1, and a PSNR of 0 with an SSIM of 0 gives exactly 0.
\<close>

theorem composite_score:
  "(0 \<le> p \<and> 0 \<le> s \<longrightarrow>
      calculateCompositeScore (Finite p) s = 0.5 * min (p / 50) 1 + 0.5 * s)
   \<and> (0 \<le> s \<longrightarrow> calculateCompositeScore PlusInfinity s = 0.5 * 1 + 0.5 * s)
   \<and> (p < 0 \<or> s < 0 \<longrightarrow> calculateCompositeScore (Finite p) s = - 1)
   \<and> (s < 0 \<longrightarrow> calculateCompositeScore PlusInfinity s = - 1)
   \<and> (50 \<le> p \<longrightarrow> calculateCompositeScore (Finite p) 1 = 1)
   \<and> calculateCompositeScore PlusInfinity 1 = 1
   \<and> calculateCompositeScore (Finite 0) 0 = 0"
  by (simp add: calculateCompositeScore_def min_def)

theorem composite_score_witness:
  "calculateCompositeScore (Finite 25) (4 / 5) = 13 / 20
   \<and> calculateCompositeScore (Finite 60) 1 = 1
   \<and> calculateCompositeScore (Finite (- 1)) (4 / 5) = - 1
   \<and> calculateCompositeScore PlusInfinity (- 1) = - 1
   \<and> calculateCompositeScore PlusInfinity (4 / 5) = 9 / 10"
  using composite_score [of 25 "4 / 5"] composite_score [of 60 1]
    composite_score [of "- 1" "4 / 5"] composite_score [of 0 "- 1"]
  by simp


section \<open>PSNR\<close>

lemma calculatePSNR_valid:
  assumes "\<not> mat_empty A" "\<not> mat_empty B" "rows A = rows B" "cols A = cols B"
    "channels A = channels B" "channels A \<le> 4"
  shows "calculatePSNR A B =
     (if meanSquaredError A B = 0 then Inr PlusInfinity
      else Inr (Finite (10 * log 10
             ((if depth A = CV_8U then 255 else if depth A = CV_16U then 65535 else 1)
               * (if depth A = CV_8U then 255 else if depth A = CV_16U then 65535 else 1)
               / meanSquaredError A B))))"
  using assms by (simp add: calculatePSNR_def meanSquaredError_def Let_def)

lemma channel_zero:
  assumes "length (data M) = rows M * cols M * channels M" and "c < channels M"
    and "\<forall>v \<in> set (data M). v = 0"
  shows "sum_list (channel M c) = 0"
proof -
  have "\<forall>v \<in> set (channel M c). v = 0"
    using assms by (auto simp: channel_def sample_index_bound)
  then show ?thesis by (rule sum_list_zeros)
qed

lemma meanSquaredError_self:
  assumes "wf_Mat A"
  shows "meanSquaredError A A = 0"
proof -
  let ?D = "mat_mul (mat_sub (convertTo A CV_64F) (convertTo A CV_64F))
                    (mat_sub (convertTo A CV_64F) (convertTo A CV_64F))"
  have z: "\<forall>v \<in> set (data ?D). v = 0"
    by (auto simp: mat_mul_def mat_sub_def convertTo_def set_zip)
  have len: "length (data ?D) = rows ?D * cols ?D * channels ?D"
    using assms by (simp add: mat_mul_def mat_sub_def convertTo_def wf_Mat_def)
  have ch: "channels ?D = channels A"
    by (simp add: mat_mul_def mat_sub_def convertTo_def)
  have "\<forall>i < channels A. cv_sum ?D ! i = 0"
    using channel_zero [OF len _ z] by (simp add: cv_sum_def ch)
  then have "sum_list (map (\<lambda>i. cv_sum ?D ! i) [0 ..< channels A]) = 0"
    by (intro sum_list_zeros) simp
  then show ?thesis
    by (simp add: meanSquaredError_def Let_def)
qed

text \<open>
  C3. For every non-empty buffer \<open>A\<close> (of at most four channels, as \<^verbatim>\<open>cv::sum\<close>
  requires) \<^verbatim>\<open>calculatePSNR(A, A)\<close> is \<open>+infinity\<close>: the mean squared error is 0,
  and the function returns the infinity, neither an error nor the sentinel.
\<close>

theorem psnr_identity:
  assumes "wf_Mat A" and "\<not> mat_empty A" and "channels A \<le> 4"
  shows "calculatePSNR A A = Inr PlusInfinity"
  using assms by (simp add: calculatePSNR_valid meanSquaredError_self)

theorem psnr_identity_witness:
  "calculatePSNR (uniformMat 4 4 1 100) (uniformMat 4 4 1 100) = Inr PlusInfinity"
  using psnr_identity [of "uniformMat 4 4 1 100"]
  by (simp add: wf_Mat_def uniformMat_def mat_empty_def)

lemma calculatePSNR_uniform:
  "0 < m \<Longrightarrow> 0 < n \<Longrightarrow> 0 < c \<Longrightarrow> c \<le> 4 \<Longrightarrow>
   calculatePSNR (uniformMat m n c v) (uniformMat m n c w) =
     (if meanSquaredError (uniformMat m n c v) (uniformMat m n c w) = 0 then Inr PlusInfinity
      else Inr (Finite (10 * log 10
             (255 * 255 / meanSquaredError (uniformMat m n c v) (uniformMat m n c w)))))"
  by (subst calculatePSNR_valid) (simp_all add: uniformMat_def mat_empty_def)

lemma mse_scenario_gray:
  "meanSquaredError (uniformMat 4 4 1 100) (uniformMat 4 4 1 110) = 100"
  by code_simp

lemma mse_scenario_colour:
  "meanSquaredError (uniformMat 4 4 3 100) (uniformMat 4 4 3 110) = 100"
  by code_simp

lemma log10_scenario_lower: "45 / 16 \<le> log 10 (65025 / 100 :: real)"
proof -
  have "(10 :: real) ^ 45 * 4 ^ 16 \<le> 2601 ^ 16" by simp
  then have "(10 :: real) ^ 45 \<le> (2601 / 4) ^ 16"
    by (simp add: power_divide pos_le_divide_eq)
  then have "(10 :: real) ^ 45 \<le> (65025 / 100) ^ 16" by simp
  from log10_lower [OF _ this] show ?thesis by simp
qed

lemma log10_scenario_upper: "log 10 (65025 / 100 :: real) < 121 / 43"
proof -
  have "(2601 :: real) ^ 43 < 10 ^ 121 * 4 ^ 43" by simp
  then have "(2601 / 4 :: real) ^ 43 < 10 ^ 121"
    by (simp add: power_divide pos_divide_less_eq)
  then have "(65025 / 100 :: real) ^ 43 < 10 ^ 121" by simp
  from log10_upper [OF _ this] show ?thesis by simp
qed

text \<open>
  C9. For the 4 by 4 8-bit buffers with every sample 100 and every sample 110 (of one
  channel, and of three) the mean squared error is exactly 100 and the PSNR is
  \<open>10 * log10 (65025 / 100)\<close>, a value between 28.125 and 28.14, that is 28.13 dB to two
  decimals.
\<close>

theorem psnr_scenario:
  "meanSquaredError (uniformMat 4 4 1 100) (uniformMat 4 4 1 110) = 100
   \<and> calculatePSNR (uniformMat 4 4 1 100) (uniformMat 4 4 1 110)
       = Inr (Finite (10 * log 10 (65025 / 100)))
   \<and> meanSquaredError (uniformMat 4 4 3 100) (uniformMat 4 4 3 110) = 100
   \<and> calculatePSNR (uniformMat 4 4 3 100) (uniformMat 4 4 3 110)
       = Inr (Finite (10 * log 10 (65025 / 100)))
   \<and> 28.125 \<le> 10 * log 10 (65025 / 100 :: real)
   \<and> 10 * log 10 (65025 / 100 :: real) < 28.14"
  using calculatePSNR_uniform [of 4 4 1 100 110] calculatePSNR_uniform [of 4 4 3 100 110]
    mse_scenario_gray mse_scenario_colour log10_scenario_lower log10_scenario_upper
  by simp

theorem psnr_scenario_witness:
  "calculatePSNR (uniformMat 4 4 1 100) (uniformMat 4 4 1 110) \<noteq> Inr PlusInfinity
   \<and> calculatePSNR (uniformMat 4 4 1 100) (uniformMat 4 4 1 110) \<noteq> Inr (Finite (- 1))"
  using psnr_scenario by simp


section \<open>The Gaussian blur checks nothing\<close>

lemma kernel_fits:
  assumes "0 \<le> k" "k \<le> 92681"
  shows "\<not> kernelOverflows k"
proof -
  have "fits_int ((i - half k) * (i - half k))" if "0 \<le> i" "i \<le> k - 1" for i
  proof -
    have "\<bar>i - half k\<bar> \<le> 46340"
      using that assms by (auto simp: half_def)
    then have "(i - half k)\<^sup>2 \<le> 46340\<^sup>2"
      by (metis abs_le_square_iff abs_numeral)
    moreover have "- (2 ^ 31) \<le> (i - half k) * (i - half k)"
      by (rule order_trans [of _ 0]) simp_all
    ultimately show ?thesis
      unfolding fits_int_def power2_eq_square by simp
  qed
  then show ?thesis by (auto simp: kernelOverflows_def)
qed

lemma coords_mem:
  "(x, y) \<in> set (coords img) \<Longrightarrow> 0 \<le> x \<and> x < width img \<and> 0 \<le> y \<and> y < height img"
  by (auto simp: coords_def)

lemma foldE_total:
  "\<forall>a \<in> set as. \<forall>s. \<exists>s'. f s a = Inr s' \<Longrightarrow> \<exists>s'. foldE f as s = Inr s'"
proof (induction as arbitrary: s)
  case Nil
  then show ?case by simp
next
  case (Cons a as)
  then obtain s1 where "f s a = Inr s1" by force
  moreover have "\<exists>s'. foldE f as s1 = Inr s'"
    using Cons.prems by (intro Cons.IH) simp
  ultimately show ?case by simp
qed

lemma mapE_total:
  "\<forall>a \<in> set as. \<exists>v. f a = Inr v \<Longrightarrow> \<exists>vs. mapE f as = Inr vs"
proof (induction as)
  case Nil
  then show ?case by simp
next
  case (Cons a as)
  then obtain v where "f a = Inr v" by force
  moreover obtain vs where "mapE f as = Inr vs"
    using Cons by force
  ultimately show ?case by simp
qed

lemma passTerm_total:
  assumes "0 \<le> c" and "c + k - 1 < 2 ^ 31" and "0 \<le> k" "k \<le> 92681"
    and "c = (if horizontal then x else y)" and "j \<in> set [0 .. k - 1]"
  shows "\<exists>s'. passTerm img kern (half k) horizontal x y s j = Inr s'"
proof -
  obtain sumR sumG sumB where s: "s = (sumR, sumG, sumB)" by (cases s)
  have j: "0 \<le> j" "j \<le> k - 1" using assms(6) by simp_all
  have h: "0 \<le> half k" "half k \<le> 46340" using assms(3,4) by (simp_all add: half_def)
  have "fits_int (c + j)" "fits_int (c + j - half k)"
    unfolding fits_int_def using assms(1,2) j h by auto
  then show ?thesis
    using assms(5) by (simp add: s Let_def)
qed

lemma gaussPass_total:
  assumes "passesFit img k" and "0 \<le> k" "k \<le> 92681"
  shows "\<exists>out. gaussPass img kern k (half k) horizontal = Inr out
           \<and> width out = width img \<and> height out = height img"
proof -
  have "\<exists>v. passPixel img kern k (half k) horizontal xy = Inr v" if xy: "xy \<in> set (coords img)" for xy
  proof -
    obtain x y where c: "xy = (x, y)" by (cases xy)
    have m: "0 \<le> x" "x < width img" "0 \<le> y" "y < height img"
      using coords_mem xy c by blast+
    have ne: "coords img \<noteq> []" using xy by auto
    have "\<exists>s'. foldE (passTerm img kern (half k) horizontal x y) [0 .. k - 1] (0, 0, 0) = Inr s'"
    proof (rule foldE_total, intro ballI allI)
      fix j s assume j: "j \<in> set [0 .. k - 1]"
      then have kpos: "0 < k" by auto
      then have room: "width img + k - 2 < 2 ^ 31" "height img + k - 2 < 2 ^ 31"
        using assms(1) ne by (auto simp: passesFit_def)
      let ?c = "if horizontal then x else y"
      have "0 \<le> ?c" "?c + k - 1 < 2 ^ 31" using m room by auto
      then show "\<exists>s'. passTerm img kern (half k) horizontal x y s j = Inr s'"
        using assms(2,3) j by (intro passTerm_total [where c = ?c]) simp_all
    qed
    then obtain s' where "foldE (passTerm img kern (half k) horizontal x y) [0 .. k - 1] (0, 0, 0) = Inr s'"
      by blast
    then show ?thesis by (cases s') (simp add: c)
  qed
  then have "\<exists>vs. mapE (passPixel img kern k (half k) horizontal) (coords img) = Inr vs"
    by (intro mapE_total) blast
  then show ?thesis by (auto simp: gaussPass_def)
qed

lemma passesFit_same_size:
  "width img' = width img \<Longrightarrow> height img' = height img \<Longrightarrow> passesFit img k \<Longrightarrow> passesFit img' k"
  by (simp add: passesFit_def coords_def)

lemma applyGaussianBlur_total:
  assumes "0 \<le> k" "k \<le> 92681" and "passesFit input k" and "\<not> denominatorVanishes sigma"
  shows "\<exists>out. applyGaussianBlur input k sigma = Inr out
           \<and> width out = width input \<and> height out = height input"
proof -
  let ?kern = "kernel1D k sigma"
  obtain temp where t: "gaussPass input ?kern k (half k) True = Inr temp"
      "width temp = width input" "height temp = height input"
    using gaussPass_total [OF assms(3,1,2)] by blast
  have "passesFit temp k" using t(2,3) assms(3) by (rule passesFit_same_size)
  then obtain out where o: "gaussPass temp ?kern k (half k) False = Inr out"
      "width out = width temp" "height out = height temp"
    using gaussPass_total [OF _ assms(1,2)] by blast
  show ?thesis
    using assms t o by (simp add: applyGaussianBlur_def Let_def kernel_fits)
qed

lemma applyGaussianBlur_sign:
  "applyGaussianBlur input k (- sigma) = applyGaussianBlur input k sigma"
  by (simp add: applyGaussianBlur_def Let_def kernel1D_def rawKernel1D_def denominatorVanishes_def)

lemma applyGaussianBlur_Mat_total:
  assumes "\<forall>ksize. 0 < ksize \<and> odd ksize \<longrightarrow>
             (\<exists>dst. blur M ksize sigma = Inr dst \<and> rows dst = rows M \<and> cols dst = cols M)"
    and "0 \<le> k"
  shows "\<exists>out. applyGaussianBlur_Mat blur M k sigma = Inr out
           \<and> rows out = rows M \<and> cols out = cols M"
proof (cases "even k")
  case True
  then have "0 < k + 1 \<and> odd (k + 1)" using assms(2) by simp
  then show ?thesis using assms(1) True by (simp add: applyGaussianBlur_Mat_def)
next
  case False
  then have "0 < k \<and> odd k" using assms(2) by (cases "k = 0") auto
  then show ?thesis using assms(1) False by (simp add: applyGaussianBlur_Mat_def)
qed

lemma GaussianBlur_dims:
  "rows (GaussianBlur M k s) = rows M \<and> cols (GaussianBlur M k s) = cols M"
  by (simp add: GaussianBlur_def blurPass_def Let_def)

text \<open>
  C2, as amended. \<^verbatim>\<open>applyGaussianBlur\<close> rejects nothing. On a well-formed image the
  version of tester.cpp returns an output buffer of the dimensions of its input for every
  kernel size from 0 to 92681 whose taps stay inside the \<^verbatim>\<open>int\<close> range
  (\<open>passesFit\<close>) and every \<open>\<sigma>\<close>, positive or negative, whose denominator
  \<open>2.0 * \<sigma> * \<sigma>\<close> is not the double 0.0; \<open>-\<sigma>\<close> gives the result of \<open>\<sigma>\<close>; it fails for a
  negative kernel size, when the kernel vector is constructed. The version of filters.cpp
  passes its arguments, an even kernel size incremented, to \<^verbatim>\<open>cv::GaussianBlur\<close>
  without a check of its own: for every kernel size \<open>k \<ge> 0\<close>, the size 0 included, it
  returns the buffer the library returns, of the rows and columns of its input, whenever
  the library blurs that input with that \<open>\<sigma>\<close> for every odd positive size.
\<close>

theorem gaussian_blur_unchecked:
  assumes "wf_Image input"
    and "\<forall>ksize. 0 < ksize \<and> odd ksize \<longrightarrow>
           (\<exists>dst. blur M ksize sigma = Inr dst \<and> rows dst = rows M \<and> cols dst = cols M)"
  shows "(0 \<le> k \<and> k \<le> 92681 \<and> passesFit input k \<and> \<not> denominatorVanishes sigma \<longrightarrow>
            (\<exists>out. applyGaussianBlur input k sigma = Inr out
               \<and> width out = width input \<and> height out = height input))
       \<and> (k < 0 \<longrightarrow> applyGaussianBlur input k sigma = Inl LengthError)
       \<and> applyGaussianBlur input k (- sigma) = applyGaussianBlur input k sigma
       \<and> (0 \<le> k \<longrightarrow>
            (\<exists>out. applyGaussianBlur_Mat blur M k sigma = Inr out
               \<and> rows out = rows M \<and> cols out = cols M))
       \<and> applyGaussianBlur_Mat blur M k sigma = blur M (if even k then k + 1 else k) sigma"
proof (intro conjI impI)
  assume "0 \<le> k \<and> k \<le> 92681 \<and> passesFit input k \<and> \<not> denominatorVanishes sigma"
  then show "\<exists>out. applyGaussianBlur input k sigma = Inr out
               \<and> width out = width input \<and> height out = height input"
    by (intro applyGaussianBlur_total) simp_all
next
  assume "k < 0"
  then show "applyGaussianBlur input k sigma = Inl LengthError"
    by (simp add: applyGaussianBlur_def)
next
  show "applyGaussianBlur input k (- sigma) = applyGaussianBlur input k sigma"
    by (rule applyGaussianBlur_sign)
next
  assume "0 \<le> k"
  with assms(2) show "\<exists>out. applyGaussianBlur_Mat blur M k sigma = Inr out
               \<and> rows out = rows M \<and> cols out = cols M"
    by (rule applyGaussianBlur_Mat_total)
next
  show "applyGaussianBlur_Mat blur M k sigma = blur M (if even k then k + 1 else k) sigma"
    by (simp add: applyGaussianBlur_Mat_def)
qed

theorem gaussian_blur_unchecked_witness:
  "(\<exists>out. applyGaussianBlur grey100 3 (- 1) = Inr out \<and> width out = 1 \<and> height out = 1)
   \<and> applyGaussianBlur grey100 (- 1) 1 = Inl LengthError
   \<and> (\<exists>out. applyGaussianBlur_Mat
               (\<lambda>src ksize s. Inr (GaussianBlur src (nat ksize) s) :: error + Mat)
               (uniformMat 4 4 3 100) 4 1.5 = Inr out \<and> rows out = 4 \<and> cols out = 4)"
proof -
  let ?blur = "\<lambda>src ksize s. Inr (GaussianBlur src (nat ksize) s) :: error + Mat"
  let ?M = "uniformMat 4 4 3 100"
  have wf: "wf_Image grey100"
    by (simp add: wf_Image_def fits_int_def grey100_def)
  have lib: "\<forall>ksize. 0 < ksize \<and> odd ksize \<longrightarrow>
               (\<exists>dst. ?blur ?M ksize s = Inr dst \<and> rows dst = rows ?M \<and> cols dst = cols ?M)" for s
    by (simp add: GaussianBlur_dims)
  have fit: "passesFit grey100 3" "\<not> denominatorVanishes (- 1)"
    by (simp_all add: passesFit_def grey100_def denominatorVanishes_def)
  have dims: "width grey100 = 1" "height grey100 = 1" "rows ?M = 4" "cols ?M = 4"
    by (simp_all add: grey100_def uniformMat_def)
  from gaussian_blur_unchecked
      [where input = grey100 and blur = ?blur and M = ?M and k = 3 and sigma = "- 1", OF wf lib] fit
  have a1: "\<exists>out. applyGaussianBlur grey100 3 (- 1) = Inr out \<and> width out = 1 \<and> height out = 1"
    by (simp add: dims)
  from gaussian_blur_unchecked
      [where input = grey100 and blur = ?blur and M = ?M and k = "- 1" and sigma = 1, OF wf lib]
  have a2: "applyGaussianBlur grey100 (- 1) 1 = Inl LengthError"
    by simp
  from gaussian_blur_unchecked
      [where input = grey100 and blur = ?blur and M = ?M and k = 4 and sigma = "1.5", OF wf lib]
  have a3: "\<exists>out. applyGaussianBlur_Mat ?blur ?M 4 1.5 = Inr out \<and> rows out = 4 \<and> cols out = 4"
    by (simp add: dims GaussianBlur_dims)
  show ?thesis
    by (rule conjI [OF a1 conjI [OF a2 a3] ])
qed

text \<open>
  The claim C2 as stated fails: a negative \<open>\<sigma>\<close> and a kernel size of 0 are accepted. On
  the one-pixel image, size 1 with \<open>\<sigma> = -1\<close> returns the image, and size 0 with \<open>\<sigma> = 1\<close>
  returns a black pixel.
\<close>

theorem gaussian_blur_accepts_nonpositive:
  "applyGaussianBlur grey100 1 (- 1) = Inr grey100
   \<and> applyGaussianBlur grey100 0 1
       = Inr \<lparr> width = 1, height = 1, pixels = [\<lparr> r = 0, g = 0, b = 0 \<rparr>] \<rparr>"
  by (simp add: applyGaussianBlur_def kernelOverflows_def fits_int_def half_def kernel1D_def
      rawKernel1D_def gaussPass_def coords_def grey100_def upt_rec clampCoord_def at_xy_def
      of_uchar_def to_uchar_def trunc_def denominatorVanishes_def Let_def)


section \<open>Unsharp masking against the image itself\<close>

lemma unsharpSample_noop: "is_uchar v \<Longrightarrow> unsharpSample v v amount 0 = v"
  by (simp add: unsharpSample_def is_uchar_def trunc_def Let_def)

lemma unsharp_fold:
  assumes "\<forall>t \<in> set ts. (case t of (y, x, c) \<Rightarrow> offset_Vec3b A y x c) < n"
    and "length out = n" and "length (data A) = n" and "length (data B) = n"
    and "\<forall>y x c. offset_Vec3b B y x c = offset_Vec3b A y x c"
  shows "\<exists>out'. foldE (unsharpStep A B amount threshold) ts out = Inr out' \<and> length out' = n
     \<and> (\<forall>i < n. out' ! i =
           (if i \<in> (\<lambda>(y, x, c). offset_Vec3b A y x c) ` set ts
            then unsharpSample (data A ! i) (data B ! i) amount threshold else out ! i))"
  using assms
proof (induction ts arbitrary: out)
  case Nil
  then show ?case by simp
next
  case (Cons t ts)
  obtain y x c where t: "t = (y, x, c)" by (cases t) 
  let ?i = "offset_Vec3b A y x c"
  let ?o = "out[?i := unsharpSample (data A ! ?i) (data B ! ?i) amount threshold]"
  have i: "?i < n" using Cons.prems(1) t by simp
  have step: "unsharpStep A B amount threshold out t = Inr ?o"
    using i Cons.prems t by (simp add: Let_def)
  have "\<exists>out'. foldE (unsharpStep A B amount threshold) ts ?o = Inr out' \<and> length out' = n
     \<and> (\<forall>i < n. out' ! i =
           (if i \<in> (\<lambda>(y, x, c). offset_Vec3b A y x c) ` set ts
            then unsharpSample (data A ! i) (data B ! i) amount threshold else ?o ! i))"
    using Cons.prems by (intro Cons.IH) simp_all
  then obtain out' where o: "foldE (unsharpStep A B amount threshold) ts ?o = Inr out'"
     "length out' = n"
     "\<forall>i < n. out' ! i =
           (if i \<in> (\<lambda>(y, x, c). offset_Vec3b A y x c) ` set ts
            then unsharpSample (data A ! i) (data B ! i) amount threshold else ?o ! i)"
    by blast
  have "foldE (unsharpStep A B amount threshold) (t # ts) out = Inr out'"
    using step o(1) by simp
  moreover have "\<forall>i < n. out' ! i =
           (if i \<in> (\<lambda>(y, x, c). offset_Vec3b A y x c) ` set (t # ts)
            then unsharpSample (data A ! i) (data B ! i) amount threshold else out ! i)"
    using o(3) t Cons.prems(2) by (auto simp: nth_list_update)
  ultimately show ?case using o(2) by blast
qed

lemma set_samples: "set (samples m n k) = {(y, x, c). y < m \<and> x < n \<and> c < k}"
proof -
  have "(y, x, c) \<in> set (samples m n k) \<longleftrightarrow> y < m \<and> x < n \<and> c < k" for y x c
    by (auto simp: samples_def image_iff)
  then show ?thesis by auto
qed

lemma offset3_flat:
  "channels A = 3 \<Longrightarrow> cols A = n \<Longrightarrow> offset_Vec3b A y x c = (y * n + x) * 3 + c"
  by (simp add: offset_Vec3b_def algebra_simps)

lemma offset3_bound:
  assumes "y < m" "x < n" "c < 3" "channels A = 3" "cols A = n"
  shows "offset_Vec3b A y x c < m * n * 3"
proof -
  have "offset_Vec3b A y x c = (y * n + x) * 3 + c"
    using assms by (simp add: offset_Vec3b_def algebra_simps)
  moreover have "y * n + x < m * n"
    using assms sample_index_bound[of y m x n] by simp
  ultimately show ?thesis
    using sample_index_bound[of "y * n + x" "m * n" c 3] assms by simp
qed

lemma offset3_cover:
  assumes "i < m * n * 3" "channels A = 3" "cols A = n"
  shows "i \<in> (\<lambda>(y, x, c). offset_Vec3b A y x c) ` set (samples m n 3)"
proof -
  let ?p = "i div 3"
  have n: "0 < n" using assms by (cases n) auto
  have p: "?p < m * n" using assms by (simp add: less_mult_imp_div_less) 
  have y: "?p div n < m" using p by (simp add: less_mult_imp_div_less mult.commute)
  have x: "?p mod n < n" using n by simp
  have "?p div n * n + ?p mod n = ?p" by simp
  then have e: "(?p div n * n + ?p mod n) * 3 + i mod 3 = i" by simp
  have "offset_Vec3b A (?p div n) (?p mod n) (i mod 3) = (?p div n * n + ?p mod n) * 3 + i mod 3"
    using assms by (simp only: offset3_flat)
  with e have "offset_Vec3b A (?p div n) (?p mod n) (i mod 3) = i"
    by (rule trans [rotated])
  moreover have "(?p div n, ?p mod n, i mod 3) \<in> set (samples m n 3)"
    using y x by (simp add: set_samples)
  ultimately show ?thesis by force
qed

text \<open>
  On the 8-bit buffers of three channels, for which the accessor \<^verbatim>\<open>at<cv::Vec3b>\<close> is
  made, the unsharp mask of a buffer against itself with threshold 0 returns the buffer,
  for every amount: the detail is 0 at every sample.
\<close>

lemma unsharp_noop_colour:
  assumes "wf_Mat A" and "\<not> mat_empty A" and "depth A = CV_8U" and "channels A = 3"
    and "\<forall>v \<in> set (data A). is_uchar v"
  shows "applyUnsharpMask A A amount 0 = Inr A"
proof -
  let ?n = "rows A * cols A * 3"
  have len: "length (data A) = ?n" using assms by (simp add: wf_Mat_def)
  have "\<exists>out'. foldE (unsharpStep A A amount 0) (samples (rows A) (cols A) 3) (replicate ?n 0) = Inr out'
      \<and> length out' = ?n
      \<and> (\<forall>i < ?n. out' ! i =
           (if i \<in> (\<lambda>(y, x, c). offset_Vec3b A y x c) ` set (samples (rows A) (cols A) 3)
            then unsharpSample (data A ! i) (data A ! i) amount 0 else replicate ?n 0 ! i))"
    using len assms(4) by (intro unsharp_fold) (auto simp: set_samples offset3_bound)
  then obtain out' where o: "foldE (unsharpStep A A amount 0) (samples (rows A) (cols A) 3) (replicate ?n 0) = Inr out'"
     "length out' = ?n"
     "\<forall>i < ?n. out' ! i =
           (if i \<in> (\<lambda>(y, x, c). offset_Vec3b A y x c) ` set (samples (rows A) (cols A) 3)
            then unsharpSample (data A ! i) (data A ! i) amount 0 else replicate ?n 0 ! i)"
    by blast
  have "out' ! i = data A ! i" if "i < ?n" for i
  proof -
    have "data A ! i \<in> set (data A)" using that len by simp
    then have "is_uchar (data A ! i)" using assms(5) by blast
    then show ?thesis
      using o(3) that offset3_cover[of i "rows A" "cols A" A] assms(4)
      by (simp add: unsharpSample_noop)
  qed
  then have "out' = data A"
    using o(2) len by (intro nth_equalityI) simp_all
  then show ?thesis
    using o(1) assms by (simp add: applyUnsharpMask_def)
qed

lemma unsharp_noop_example:
  "applyUnsharpMask (uniformMat 4 4 3 100) (uniformMat 4 4 3 100) 1.5 0
     = Inr (uniformMat 4 4 3 100)"
  using unsharp_noop_colour [of "uniformMat 4 4 3 100" "1.5"]
  by (simp add: wf_Mat_def uniformMat_def mat_empty_def is_uchar_def)

text \<open>
  C6. \<^verbatim>\<open>applyUnsharpMask(A, A, amount, 0)\<close> does not return \<open>A\<close> for every valid
  buffer. The function serves any number of channels (it loops over
  \<^verbatim>\<open>original.channels()\<close>), but reads and writes through \<^verbatim>\<open>at<cv::Vec3b>\<close>,
  which addresses three bytes for a pixel: on the single-channel 8-bit buffer of one row
  and two columns the second pixel is read at offset 3, outside the two bytes of the
  buffer, and no buffer is returned.
\<close>

theorem unsharp_single_channel:
  "wf_Mat grayRow \<and> \<not> mat_empty grayRow \<and> depth grayRow = CV_8U
   \<and> channels grayRow = 1 \<and> is_uchar 10 \<and> is_uchar 20
   \<and> applyUnsharpMask grayRow grayRow 1.5 0 = Inl OutOfBounds"
  by (simp add: applyUnsharpMask_def grayRow_def mat_empty_def samples_def offset_Vec3b_def
      upt_rec Let_def unsharpSample_def trunc_def wf_Mat_def is_uchar_def)

theorem unsharp_single_channel_witness:
  "applyUnsharpMask grayRow grayRow 1.5 0 \<noteq> Inr grayRow"
  using unsharp_single_channel by simp


section \<open>Weighted averages and the Gaussian window\<close>

lemma jensen_sum:
  fixes w f :: "nat \<Rightarrow> real"
  assumes "\<forall>j \<in> S. 0 \<le> w j" and "(\<Sum>j\<in>S. w j) = 1" and "finite S"
  shows "(\<Sum>j\<in>S. w j * f j)\<^sup>2 \<le> (\<Sum>j\<in>S. w j * (f j)\<^sup>2)"
proof -
  define m where "m = (\<Sum>j\<in>S. w j * f j)"
  have "(\<Sum>j\<in>S. w j * (f j - m)\<^sup>2)
        = (\<Sum>j\<in>S. w j * (f j)\<^sup>2 - 2 * m * (w j * f j) + m\<^sup>2 * w j)"
    by (rule sum.cong) (simp_all add: power2_diff algebra_simps)
  also have "\<dots> = (\<Sum>j\<in>S. w j * (f j)\<^sup>2) - 2 * m * (\<Sum>j\<in>S. w j * f j) + m\<^sup>2 * (\<Sum>j\<in>S. w j)"
    by (simp add: sum.distrib sum_subtractf sum_distrib_left)
  also have "\<dots> = (\<Sum>j\<in>S. w j * (f j)\<^sup>2) - m\<^sup>2"
    using assms(2) by (simp add: m_def [symmetric] power2_eq_square)
  finally have "(\<Sum>j\<in>S. w j * (f j)\<^sup>2) - m\<^sup>2 = (\<Sum>j\<in>S. w j * (f j - m)\<^sup>2)" by simp
  moreover have "0 \<le> (\<Sum>j\<in>S. w j * (f j - m)\<^sup>2)"
    using assms(1) by (intro sum_nonneg) simp
  ultimately show ?thesis by (simp add: m_def)
qed

lemma wsum_sum: "wsum ws f = (\<Sum>j\<in>{0..<length ws}. ws ! j * f j)"
  by (simp add: wsum_def interv_sum_list_conv_sum_set_nat)

lemma wsum_jensen:
  assumes "\<forall>w \<in> set ws. 0 \<le> w" and "sum_list ws = 1"
  shows "(wsum ws f)\<^sup>2 \<le> wsum ws (\<lambda>j. (f j)\<^sup>2)"
proof -
  have "(\<Sum>j\<in>{0..<length ws}. ws ! j) = 1"
    using assms(2) by (simp add: sum_list_sum_nth)
  moreover have "\<forall>j\<in>{0..<length ws}. 0 \<le> ws ! j"
    using assms(1) by simp
  ultimately show ?thesis
    unfolding wsum_sum by (intro jensen_sum) simp_all
qed

lemma wsum_mono:
  assumes "\<forall>w \<in> set ws. 0 \<le> w" and "\<forall>j < length ws. f j \<le> h j"
  shows "wsum ws f \<le> wsum ws h"
  unfolding wsum_sum using assms by (intro sum_mono mult_left_mono) simp_all

lemma sum_list_div:
  fixes xs :: "real list"
  shows "sum_list (map (\<lambda>w. w / c) xs) = sum_list xs / c"
  by (induction xs) (simp_all add: add_divide_distrib)

lemma sum_list_pos_exp:
  fixes xs :: "real list"
  shows "xs \<noteq> [] \<Longrightarrow> \<forall>x \<in> set xs. 0 < x \<Longrightarrow> 0 < sum_list xs"
  by (induction xs) (auto intro: add_pos_nonneg sum_list_nonneg less_imp_le)

lemma gaussianKernel_length: "length (gaussianKernel k sigma) = k"
  by (simp add: gaussianKernel_def Let_def)

lemma gaussianKernel_nonneg: "\<forall>w \<in> set (gaussianKernel k sigma). 0 \<le> w"
  by (auto simp: gaussianKernel_def Let_def intro!: divide_nonneg_nonneg sum_list_nonneg)

lemma gaussianKernel_sum: "0 < k \<Longrightarrow> sum_list (gaussianKernel k sigma) = 1"
proof -
  assume k: "0 < k"
  let ?raw = "map (\<lambda>j. exp (- ((real j - real (k div 2)) ^ 2) / (2 * sigma ^ 2))) [0 ..< k]"
  have "0 < sum_list ?raw"
    using k by (intro sum_list_pos_exp) auto
  moreover have "gaussianKernel k sigma = map (\<lambda>w. w / sum_list ?raw) ?raw"
    unfolding gaussianKernel_def Let_def ..
  ultimately show ?thesis
    by (simp only: sum_list_div) simp
qed

lemma clampIndex_bound: "0 < len \<Longrightarrow> clampIndex n len < len"
  by (auto simp: clampIndex_def)

lemma idx_bound:
  assumes "y < rows M" "x < cols M" "c < channels M"
  shows "idx M y x c < rows M * cols M * channels M"
proof -
  have "y * cols M + x < rows M * cols M"
    using assms sample_index_bound [of y "rows M" x "cols M"] by simp
  then show ?thesis
    using assms sample_index_bound [of "y * cols M + x" "rows M * cols M" c "channels M"]
    by (simp add: idx_def)
qed

lemma tap_bound:
  assumes "wf_Mat M" and "i < length (data M)"
  shows "tap M k horizontal i j < length (data M)"
proof -
  let ?c = "i mod channels M" and ?p = "i div channels M"
  have len: "length (data M) = rows M * cols M * channels M" and ch: "0 < channels M"
    using assms by (simp_all add: wf_Mat_def)
  have p: "?p < rows M * cols M"
    using assms(2) len by (simp add: less_mult_imp_div_less)
  have cols: "0 < cols M"
    using p by (cases "cols M") simp_all
  have rows: "0 < rows M"
    using p by (cases "rows M") simp_all
  have y: "?p div cols M < rows M"
    using p by (simp add: less_mult_imp_div_less mult.commute)
  have x: "?p mod cols M < cols M" using cols by simp
  have c: "?c < channels M" using ch by simp
  show ?thesis
  proof (cases horizontal)
    case True
    have "idx M (?p div cols M) (clampIndex (int (?p mod cols M) + int j - int (k div 2)) (cols M)) ?c
            < rows M * cols M * channels M"
      using y clampIndex_bound [OF cols] c by (rule idx_bound)
    then show ?thesis using True by (simp add: tap_def Let_def len)
  next
    case False
    have "idx M (clampIndex (int (?p div cols M) + int j - int (k div 2)) (rows M)) (?p mod cols M) ?c
            < rows M * cols M * channels M"
      using clampIndex_bound [OF rows] x c by (rule idx_bound)
    then show ?thesis using False by (simp add: tap_def Let_def len)
  qed
qed

lemma blurPass_shape [simp]:
  "rows (blurPass M ws h) = rows M" "cols (blurPass M ws h) = cols M"
  "channels (blurPass M ws h) = channels M" "length (data (blurPass M ws h)) = length (data M)"
  "depth (blurPass M ws h) = depth M"
  by (simp_all add: blurPass_def)

lemma blurPass_wf: "wf_Mat M \<Longrightarrow> wf_Mat (blurPass M ws h)"
  by (simp add: wf_Mat_def)

lemma blurPass_nth:
  "i < length (data M) \<Longrightarrow>
   data (blurPass M ws h) ! i = wsum ws (\<lambda>j. data M ! tap M (length ws) h i j)"
  by (simp add: blurPass_def)

lemma tap_shape:
  "rows P = rows Q \<Longrightarrow> cols P = cols Q \<Longrightarrow> channels P = channels Q \<Longrightarrow> tap P k h i j = tap Q k h i j"
  by (simp add: tap_def idx_def Let_def)

lemma mat_mul_shape [simp]:
  "rows (mat_mul P Q) = rows P" "cols (mat_mul P Q) = cols P"
  "channels (mat_mul P Q) = channels P" "depth (mat_mul P Q) = depth P"
  "length (data (mat_mul P Q)) = min (length (data P)) (length (data Q))"
  by (simp_all add: mat_mul_def)

lemma mat_mul_nth:
  "i < length (data P) \<Longrightarrow> i < length (data Q) \<Longrightarrow> data (mat_mul P Q) ! i = data P ! i * data Q ! i"
  by (simp add: mat_mul_def)

lemma blurPass_jensen:
  assumes wf: "wf_Mat M" and i: "i < length (data M)"
    and nn: "\<forall>w \<in> set ws. 0 \<le> w" and one: "sum_list ws = 1"
  shows "(data (blurPass M ws h) ! i)\<^sup>2 \<le> data (blurPass (mat_mul M M) ws h) ! i"
proof -
  have t: "tap (mat_mul M M) (length ws) h i j = tap M (length ws) h i j" for j
    by (rule tap_shape) simp_all
  have "data (blurPass (mat_mul M M) ws h) ! i
        = wsum ws (\<lambda>j. data (mat_mul M M) ! tap M (length ws) h i j)"
    using i by (simp add: blurPass_nth t)
  also have "\<dots> = wsum ws (\<lambda>j. (data M ! tap M (length ws) h i j)\<^sup>2)"
    using tap_bound [OF wf i] by (simp add: mat_mul_nth power2_eq_square)
  finally show ?thesis
    using wsum_jensen [OF nn one] i by (simp add: blurPass_nth)
qed

lemma blurPass_mono:
  assumes wf: "wf_Mat P" and i: "i < length (data P)"
    and shape: "rows P = rows Q" "cols P = cols Q" "channels P = channels Q"
      "length (data P) = length (data Q)"
    and nn: "\<forall>w \<in> set ws. 0 \<le> w"
    and le: "\<forall>t < length (data P). data P ! t \<le> data Q ! t"
  shows "data (blurPass P ws h) ! i \<le> data (blurPass Q ws h) ! i"
proof -
  have t: "tap Q (length ws) h i j = tap P (length ws) h i j" for j
    by (rule tap_shape) (simp_all add: shape)
  show ?thesis
    using i shape(4) le tap_bound [OF wf i]
    by (simp add: blurPass_nth t wsum_mono [OF nn])
qed

lemma GaussianBlur_shape [simp]:
  "rows (GaussianBlur M k s) = rows M" "cols (GaussianBlur M k s) = cols M"
  "channels (GaussianBlur M k s) = channels M" "length (data (GaussianBlur M k s)) = length (data M)"
  "depth (GaussianBlur M k s) = depth M"
  by (simp_all add: GaussianBlur_def Let_def)

lemma GaussianBlur_variance:
  assumes wf: "wf_Mat M" and i: "i < length (data M)" and k: "0 < k"
  shows "(data (GaussianBlur M k s) ! i)\<^sup>2 \<le> data (GaussianBlur (mat_mul M M) k s) ! i"
proof -
  let ?ws = "gaussianKernel k s"
  let ?H = "blurPass M ?ws True" and ?HS = "blurPass (mat_mul M M) ?ws True"
  note nn = gaussianKernel_nonneg [of k s] and one = gaussianKernel_sum [OF k, of s]
  have wfH: "wf_Mat ?H" using wf by (rule blurPass_wf)
  have wfHH: "wf_Mat (mat_mul ?H ?H)" using wfH by (simp add: wf_Mat_def)
  have "(data (blurPass ?H ?ws False) ! i)\<^sup>2 \<le> data (blurPass (mat_mul ?H ?H) ?ws False) ! i"
    using i by (intro blurPass_jensen [OF wfH _ nn one]) simp
  also have "\<dots> \<le> data (blurPass ?HS ?ws False) ! i"
  proof (rule blurPass_mono [OF wfHH _ _ _ _ _ nn])
    show "\<forall>t < length (data (mat_mul ?H ?H)). data (mat_mul ?H ?H) ! t \<le> data ?HS ! t"
    proof (intro allI impI)
      fix t assume "t < length (data (mat_mul ?H ?H))"
      then have t: "t < length (data M)" by simp
      then show "data (mat_mul ?H ?H) ! t \<le> data ?HS ! t"
        using blurPass_jensen [OF wf t nn one, of True]
        by (simp add: mat_mul_nth power2_eq_square)
    qed
  qed (use i in simp_all)
  finally show ?thesis
    by (simp add: GaussianBlur_def Let_def)
qed


section \<open>SSIM of an image against itself\<close>

lemma convertTo_shape [simp]:
  "rows (convertTo M d) = rows M" "cols (convertTo M d) = cols M"
  "channels (convertTo M d) = channels M" "data (convertTo M d) = data M"
  by (simp_all add: convertTo_def)

lemma mat_sub_shape [simp]:
  "rows (mat_sub P Q) = rows P" "cols (mat_sub P Q) = cols P"
  "channels (mat_sub P Q) = channels P"
  "length (data (mat_sub P Q)) = min (length (data P)) (length (data Q))"
  by (simp_all add: mat_sub_def)

lemma mat_add_shape [simp]:
  "rows (mat_add P Q) = rows P" "cols (mat_add P Q) = cols P"
  "channels (mat_add P Q) = channels P"
  "length (data (mat_add P Q)) = min (length (data P)) (length (data Q))"
  by (simp_all add: mat_add_def)

lemma mat_divide_shape [simp]:
  "rows (mat_divide P Q) = rows P" "cols (mat_divide P Q) = cols P"
  "channels (mat_divide P Q) = channels P"
  "length (data (mat_divide P Q)) = min (length (data P)) (length (data Q))"
  by (simp_all add: mat_divide_def)

lemma mat_scale_shape [simp]:
  "rows (mat_scale k M) = rows M" "cols (mat_scale k M) = cols M"
  "channels (mat_scale k M) = channels M" "length (data (mat_scale k M)) = length (data M)"
  by (simp_all add: mat_scale_def)

lemma mat_add_scalar_shape [simp]:
  "rows (mat_add_scalar M s) = rows M" "cols (mat_add_scalar M s) = cols M"
  "channels (mat_add_scalar M s) = channels M"
  "length (data (mat_add_scalar M s)) = length (data M)"
  by (simp_all add: mat_add_scalar_def)

lemma mat_sub_nth:
  "i < length (data P) \<Longrightarrow> i < length (data Q) \<Longrightarrow> data (mat_sub P Q) ! i = data P ! i - data Q ! i"
  by (simp add: mat_sub_def)

lemma mat_add_nth:
  "i < length (data P) \<Longrightarrow> i < length (data Q) \<Longrightarrow> data (mat_add P Q) ! i = data P ! i + data Q ! i"
  by (simp add: mat_add_def)

lemma mat_divide_nth:
  "i < length (data P) \<Longrightarrow> i < length (data Q) \<Longrightarrow> data (mat_divide P Q) ! i = data P ! i / data Q ! i"
  by (simp add: mat_divide_def)

lemma mat_scale_nth:
  "i < length (data M) \<Longrightarrow> data (mat_scale k M) ! i = k * data M ! i"
  by (simp add: mat_scale_def)

lemma mat_add_scalar_nth:
  "i < length (data M) \<Longrightarrow>
   data (mat_add_scalar M s) ! i = (if i mod channels M = 0 then data M ! i + s else data M ! i)"
  by (simp add: mat_add_scalar_def)

lemma sum_list_ones:
  "\<forall>p < n. f p = (1::real) \<Longrightarrow> sum_list (map f [0 ..< n]) = real n"
  by (induction n) simp_all

lemma computeSSIM_self:
  assumes "\<not> mat_empty A" and "channels A \<le> 4"
  shows "computeSSIM A A = Inr (cv_mean (selfMap (convertTo A CV_32F)) ! 0)"
  using assms by (simp add: computeSSIM_def selfMap_def Let_def type_eq_def)

lemma selfMap_shape [simp]:
  "rows (selfMap F) = rows F" "cols (selfMap F) = cols F" "channels (selfMap F) = channels F"
  "length (data (selfMap F)) = length (data F)"
  by (simp_all add: selfMap_def Let_def)

lemma selfMap_channel0:
  assumes wf: "wf_Mat F" and i: "i < length (data F)" and c0: "i mod channels F = 0"
  shows "data (selfMap F) ! i = 1"
proof -
  define m where "m = data (GaussianBlur F 11 1.5) ! i"
  define e where "e = data (GaussianBlur (mat_mul F F) 11 1.5) ! i"
  have "m\<^sup>2 \<le> e"
    unfolding m_def e_def using wf i by (intro GaussianBlur_variance) simp_all
  then have v: "0 \<le> e - m * m" by (simp add: power2_eq_square)
  have "data (selfMap F) ! i
        = ((2 * (m * m) + 6.5025) * (2 * (e - m * m) + 58.5225))
          / (((m * m + m * m) + 6.5025) * (((e - m * m) + (e - m * m)) + 58.5225))"
    using i c0
    by (simp add: selfMap_def Let_def mat_divide_nth mat_mul_nth mat_add_scalar_nth mat_scale_nth
        mat_add_nth mat_sub_nth m_def e_def)
  also have "\<dots> = 1"
  proof -
    have "0 < (m * m + m * m) + 6.5025"
      by (intro add_nonneg_pos add_nonneg_nonneg) simp_all
    moreover have "0 < ((e - m * m) + (e - m * m)) + 58.5225"
      using v by (intro add_nonneg_pos add_nonneg_nonneg) simp_all
    ultimately have nz: "((m * m + m * m) + 6.5025) * (((e - m * m) + (e - m * m)) + 58.5225) \<noteq> 0"
      by simp
    have eq: "(2 * (m * m) + 6.5025) * (2 * (e - m * m) + 58.5225)
        = ((m * m + m * m) + 6.5025) * (((e - m * m) + (e - m * m)) + 58.5225)"
      by (simp only: mult_2)
    show ?thesis
      unfolding eq using nz by (rule divide_self)
  qed
  finally show ?thesis .
qed

text \<open>
  C4. For every non-empty buffer \<open>A\<close> (of at most four channels) compared against itself
  \<^verbatim>\<open>computeSSIM\<close> returns 1: at every pixel of channel 0 the numerator
  \<open>(2\<mu>\<^sup>2 + C1)(2\<sigma>\<^sup>2 + C2)\<close> and the denominator \<open>(\<mu>\<^sup>2 + \<mu>\<^sup>2 + C1)(\<sigma>\<^sup>2 + \<sigma>\<^sup>2 + C2)\<close>
  of the SSIM map are one positive number, because the local variance
  \<open>\<sigma>\<^sup>2 = E[A\<^sup>2] - \<mu>\<^sup>2\<close> under the normalised Gaussian window is not negative; the mean
  of the map over channel 0 is 1. In exact arithmetic the value is 1 itself. Of the
  Gaussian window the proof uses that its weights are not negative and sum to 1, and that
  every coordinate it reads lies inside the grid.
\<close>

theorem ssim_identity:
  assumes "wf_Mat A" and "\<not> mat_empty A" and "channels A \<le> 4"
  shows "computeSSIM A A = Inr 1"
proof -
  let ?F = "convertTo A CV_32F"
  have wfF: "wf_Mat ?F" using assms(1) by (simp add: wf_Mat_def)
  have ch: "0 < channels A" and len: "length (data A) = rows A * cols A * channels A"
    using assms(1) by (simp_all add: wf_Mat_def)
  have pos: "0 < rows A * cols A" using assms(2) by (simp add: mat_empty_def)
  have "data (selfMap ?F) ! (p * channels A + 0) = 1" if "p < rows A * cols A" for p
  proof (rule selfMap_channel0 [OF wfF])
    show "p * channels A + 0 < length (data ?F)"
      using sample_index_bound [OF that ch] len by simp
    show "(p * channels A + 0) mod channels ?F = 0" by simp
  qed
  then have "sum_list (channel (selfMap ?F) 0) = real (rows A * cols A)"
    by (simp add: channel_def sum_list_ones)
  then have "cv_mean (selfMap ?F) ! 0 = 1"
    using ch pos by (simp add: cv_mean_def)
  then show ?thesis
    using assms by (simp add: computeSSIM_self)
qed

theorem ssim_identity_witness:
  "computeSSIM (uniformMat 4 4 1 100) (uniformMat 4 4 1 100) = Inr 1"
  using ssim_identity [of "uniformMat 4 4 1 100"]
  by (simp add: wf_Mat_def uniformMat_def mat_empty_def)

section \<open>The bilateral filter against the specification\<close>

lemma colorDifference_colorDist: "colorDifference p q = colorDist q p"
  by (simp add: colorDifference_def colorDist_def Let_def power2_eq_square algebra_simps)

lemma noOverflow_at:
  assumes "noOverflow input k" and "(x, y) \<in> set (coords input)"
    and "(ky, kx) \<in> set (window (half k))"
  shows "fits_int (x + kx) \<and> fits_int (y + ky)
       \<and> fits_int (kx * kx) \<and> fits_int (ky * ky) \<and> fits_int (kx * kx + ky * ky)
       \<and> fits_int (colorDist (neighbour input x y (ky, kx)) (at_xy input x y)
                   * colorDist (neighbour input x y (ky, kx)) (at_xy input x y))"
  using assms unfolding noOverflow_def list_all_iff by fast

lemma accumulate_ok:
  assumes no: "noOverflow input k" and xy: "(x, y) \<in> set (coords input)"
    and d: "d \<in> set (window (half k))"
  shows "accumulate ar input s t x y (sumR, sumG, sumB, sumWeight) d =
     Inr (fadd ar sumR (fmul ar (fint ar (uint (r (neighbour input x y d))))
                                (bilateralWeight ar input s t x y d)),
          fadd ar sumG (fmul ar (fint ar (uint (g (neighbour input x y d))))
                                (bilateralWeight ar input s t x y d)),
          fadd ar sumB (fmul ar (fint ar (uint (b (neighbour input x y d))))
                                (bilateralWeight ar input s t x y d)),
          fadd ar sumWeight (bilateralWeight ar input s t x y d))"
proof -
  obtain ky kx where od: "d = (ky, kx)" by (cases d)
  note f = noOverflow_at [OF no xy d [unfolded od] ]
  have n: "at_xy input (clampCoord (x + kx) (width input)) (clampCoord (y + ky) (height input))
      = neighbour input x y (ky, kx)" by simp
  have sw: "spatialWeight ar kx ky s =
      Inr (fexp ar (fdiv ar (fint ar (- (kx\<^sup>2 + ky\<^sup>2))) (fmul ar (fmul ar (fint ar 2) s) s)))"
    using f by (simp add: spatialWeight_def power2_eq_square)
  have rw: "rangeWeight ar (colorDifference (at_xy input x y) (neighbour input x y (ky, kx))) t =
      Inr (fexp ar (fdiv ar
             (fint ar (- (colorDist (neighbour input x y (ky, kx)) (at_xy input x y))\<^sup>2))
             (fmul ar (fmul ar (fint ar 2) t) t)))"
    using f by (simp add: rangeWeight_def colorDifference_colorDist power2_eq_square
        del: neighbour.simps)
  show ?thesis
    unfolding od accumulate.simps Let_def n sw rw using f
    by (simp del: neighbour.simps)
qed

lemma foldE_accumulate:
  assumes "\<forall>d \<in> set ds. \<forall>sumR sumG sumB sumWeight.
     accumulate ar input s t x y (sumR, sumG, sumB, sumWeight) d =
       Inr (fadd ar sumR (vr d), fadd ar sumG (vg d), fadd ar sumB (vb d), fadd ar sumWeight (w d))"
  shows "foldE (accumulate ar input s t x y) ds (sumR, sumG, sumB, sumWeight) =
     Inr (foldl (fadd ar) sumR (map vr ds), foldl (fadd ar) sumG (map vg ds),
          foldl (fadd ar) sumB (map vb ds), foldl (fadd ar) sumWeight (map w ds))"
  using assms
proof (induction ds arbitrary: sumR sumG sumB sumWeight)
  case Nil
  then show ?case by simp
next
  case (Cons d ds)
  then show ?case by simp
qed

lemma bilateralPixel_spec:
  assumes no: "noOverflow input k" and xy: "xy \<in> set (coords input)"
  shows "bilateralPixel ar input k s t xy = specPixel ar input k s t xy"
proof -
  obtain x y where c: "xy = (x, y)" by (cases xy)
  let ?w = "bilateralWeight ar input s t x y" and ?ds = "window (half k)"
  have fold: "foldE (accumulate ar input s t x y) ?ds (fint ar 0, fint ar 0, fint ar 0, fint ar 0) =
     Inr (foldl (fadd ar) (fint ar 0)
            (map (\<lambda>d. fmul ar (fint ar (uint (r (neighbour input x y d)))) (?w d)) ?ds),
          foldl (fadd ar) (fint ar 0)
            (map (\<lambda>d. fmul ar (fint ar (uint (g (neighbour input x y d)))) (?w d)) ?ds),
          foldl (fadd ar) (fint ar 0)
            (map (\<lambda>d. fmul ar (fint ar (uint (b (neighbour input x y d)))) (?w d)) ?ds),
          foldl (fadd ar) (fint ar 0) (map ?w ?ds))"
    by (intro foldE_accumulate ballI allI) (rule accumulate_ok [OF no xy [unfolded c] ])
  show ?thesis
    unfolding c bilateralPixel.simps fold specPixel.simps Let_def weightedMean_def fsum_def
    by (simp only: prod.case sum.case)
qed

lemma mapE_cong: "\<forall>x \<in> set xs. f x = h x \<Longrightarrow> mapE f xs = mapE h xs"
  by (induction xs) (simp_all split: sum.splits)

lemma applyBilateralFilter_spec:
  assumes "noOverflow input k"
  shows "applyBilateralFilter ar input k sigmaSpatial sigmaRange
           = specBilateral ar input k sigmaSpatial sigmaRange"
proof -
  have "mapE (bilateralPixel ar input k sigmaSpatial sigmaRange) (coords input)
        = mapE (specPixel ar input k sigmaSpatial sigmaRange) (coords input)"
    using assms by (intro mapE_cong ballI bilateralPixel_spec)
  then show ?thesis by (simp add: applyBilateralFilter_def specBilateral_def)
qed

text \<open>
  C5, as amended. For every well-formed image, every kernel size and all spreads on which
  no \<^verbatim>\<open>int\<close> expression of the filter overflows, and for every double arithmetic,
  \<^verbatim>\<open>applyBilateralFilter\<close> computes the pixel at \<open>p\<close> as, in each channel, the
  conversion to \<^verbatim>\<open>unsigned char\<close> of the quotient \<open>\<Sum> q w(p,q) / \<Sum> w(p,q)\<close>, both sums
  accumulated from 0.0 in the order of the neighbourhood, over the clamped neighbourhood
  of the offsets from \<open>-(k div 2)\<close> to \<open>k div 2\<close> in both directions (\<open>k \<times> k\<close> pixels for an
  odd \<open>k\<close>, \<open>(k + 1) \<times> (k + 1)\<close> for an even one), with
  \<open>w(p,q) = exp (- \<parallel>p - q\<parallel>\<^sup>2 / (2 \<sigma>\<^sub>s\<^sup>2)) * exp (- colorDist(p,q)\<^sup>2 / (2 \<sigma>\<^sub>r\<^sup>2))\<close> and
  \<open>colorDist\<close> the sum of the squared channel differences to the centre pixel; where a
  conversion is undefined (a NaN quotient), so is the result of the filter.
\<close>

theorem bilateral_formula:
  assumes "wf_Image input" and "noOverflow input k"
  shows "applyBilateralFilter ar input k sigmaSpatial sigmaRange
           = specBilateral ar input k sigmaSpatial sigmaRange"
  using assms(2) by (rule applyBilateralFilter_spec)

lemma noOverflow_greyRow: "noOverflow greyRow 2"
  by (simp add: noOverflow_def greyRow_def coords_def window_def half_def upto_rec1 fits_int_def
      colorDist_def clampCoord_def at_xy_def)

theorem bilateral_formula_witness:
  "applyBilateralFilter exactArith greyRow 2 3 30 = specBilateral exactArith greyRow 2 3 30"
  using bilateral_formula [of greyRow 2 exactArith 3 30] noOverflow_greyRow
  by (simp add: wf_Image_def fits_int_def greyRow_def)

text \<open>
  The claim C5 as stated fails. For the kernel size 2 the neighbourhood has the nine
  offsets of a 3 by 3 window, not 2 by 2. And on a black pixel beside a red one the
  squared colour distance is 65025, whose square does not fit an \<^verbatim>\<open>int\<close>: the range
  weight, and with it the filter, has no defined value.
\<close>

theorem bilateral_window_and_overflow:
  "window (half 2) = [(- 1, - 1), (- 1, 0), (- 1, 1), (0, - 1), (0, 0), (0, 1), (1, - 1), (1, 0), (1, 1)]
   \<and> colorDifference \<lparr> r = 0, g = 0, b = 0 \<rparr> \<lparr> r = 255, g = 0, b = 0 \<rparr> = 65025
   \<and> rangeWeight exactArith 65025 30 = Inl SignedOverflow
   \<and> applyBilateralFilter exactArith blackRed 3 30 30 = Inl SignedOverflow"
  by (simp add: applyBilateralFilter_def coords_def blackRed_def window_def half_def
      clampCoord_def at_xy_def fits_int_def spatialWeight_def rangeWeight_def colorDifference_def
      upto_rec1 Let_def)

text \<open>
  C10. On the two-pixel image \<open>redCyan\<close> both pixels have the red level 100, so a convex
  combination of the red samples is 100; the squared colour distance of the two pixels is
  130050, and its square overflows the \<^verbatim>\<open>int\<close> in \<^verbatim>\<open>rangeWeight\<close>: for every
  choice of the spreads, and in every double arithmetic, the filter has no defined output.
\<close>

theorem bilateral_undefined_on_contrast:
  "applyBilateralFilter ar redCyan 3 sigmaSpatial sigmaRange = Inl SignedOverflow"
  by (simp add: applyBilateralFilter_def coords_def redCyan_def window_def half_def
      clampCoord_def at_xy_def fits_int_def spatialWeight_def rangeWeight_def colorDifference_def
      upto_rec1 Let_def)

theorem bilateral_undefined_on_contrast_witness:
  "applyBilateralFilter exactArith redCyan 3 3 30 = Inl SignedOverflow"
  using bilateral_undefined_on_contrast [of exactArith 3 30] by simp


end
